theory Spec2Isabelle
  imports Main "HOL-Library.Word" "HOL-Library.Sublist"
begin

unbundle bit_operations_syntax

section \<open>Python strings, slices and whitespace\<close>

text \<open>
  A Python \<^verbatim>\<open>str\<close> is a sequence of Unicode code points and \<^verbatim>\<open>len\<close> counts code
  points, so a string is a list of code points (each below \<open>0x110000\<close>); a
  \<^verbatim>\<open>bytes\<close> object is a list of numbers below 256.  \<open>u\<close> turns an ASCII literal
  into such a string.
\<close>

type_synonym pystr = "nat list"
type_synonym pybytes = "nat list"

definition u :: "string \<Rightarrow> pystr" where
  "u s = map of_char s"

text \<open>\<^verbatim>\<open>str.isspace\<close> on one code point: the code points Python treats as whitespace.\<close>

definition py_isspace :: "nat \<Rightarrow> bool" where
  "py_isspace c =
     ((0x09 \<le> c \<and> c \<le> 0x0D) \<or> (0x1C \<le> c \<and> c \<le> 0x20) \<or> c = 0x85 \<or> c = 0xA0 \<or>
      c = 0x1680 \<or> (0x2000 \<le> c \<and> c \<le> 0x200A) \<or> c = 0x2028 \<or> c = 0x2029 \<or>
      c = 0x202F \<or> c = 0x205F \<or> c = 0x3000)"

text \<open>\<^verbatim>\<open>s.strip()\<close>: drop the whitespace at both ends.\<close>

definition strip :: "pystr \<Rightarrow> pystr" where
  "strip s = rev (dropWhile py_isspace (rev (dropWhile py_isspace s)))"

text \<open>
  The slices \<^verbatim>\<open>xs[:k]\<close> and \<^verbatim>\<open>xs[j:]\<close> for any integer bound: a negative bound counts
  from the end and is clamped at the start of the list (the subtraction on \<open>nat\<close> stops
  at 0, as Python's clamp does).
\<close>

definition slice_to :: "'a list \<Rightarrow> int \<Rightarrow> 'a list" where
  "slice_to xs k = (if 0 \<le> k then take (nat k) xs else take (length xs - nat (- k)) xs)"

definition slice_from :: "'a list \<Rightarrow> int \<Rightarrow> 'a list" where
  "slice_from xs j = (if 0 \<le> j then drop (nat j) xs else drop (length xs - nat (- j)) xs)"

text \<open>\<^verbatim>\<open>s.replace(old, new)\<close> for a one-character \<^verbatim>\<open>old\<close>.\<close>

definition replace_char :: "nat \<Rightarrow> pystr \<Rightarrow> pystr \<Rightarrow> pystr" where
  "replace_char old new s = concat (map (\<lambda>c. if c = old then new else [c]) s)"

text \<open>\<^verbatim>\<open>a or b\<close> on strings, and \<^verbatim>\<open>getattr(e, name, "") or ""\<close> on an optional field.\<close>

definition or_str :: "pystr \<Rightarrow> pystr \<Rightarrow> pystr" where
  "or_str a b = (if a \<noteq> [] then a else b)"

definition or_empty :: "pystr option \<Rightarrow> pystr" where
  "or_empty x = (case x of None \<Rightarrow> [] | Some s \<Rightarrow> s)"

section \<open>Double-precision products\<close>

text \<open>
  \<^verbatim>\<open>int(max_chars * 0.7)\<close> multiplies in IEEE double precision.  The constant is
  \<open>mant * 2 ^ -ex\<close> with a 53-bit mantissa; the integer is first converted to a double
  (rounded to 53 significant bits, ties to even; Python raises OverflowError when the
  result does not fit), the exact product is rounded the same way, and \<^verbatim>\<open>int\<close> drops
  the fraction.
\<close>

datatype py_error = OverflowError | BackendError | UnicodeEncodeError

fun bit_len :: "nat \<Rightarrow> nat" where
  "bit_len n = (if n = 0 then 0 else Suc (bit_len (n div 2)))"

declare bit_len.simps [simp del]

definition round53 :: "nat \<Rightarrow> nat" where
  "round53 p =
     (let n = bit_len p in
      if n \<le> 53 then p
      else
        (let s = n - 53; q = p div 2 ^ s; r = p mod 2 ^ s; h = 2 ^ (s - 1)
         in (if h < r \<or> (r = h \<and> odd q) then q + 1 else q) * 2 ^ s))"

definition int_of_product :: "int \<Rightarrow> nat \<Rightarrow> nat \<Rightarrow> py_error + int" where
  "int_of_product m mant ex =
     (let a = round53 (nat \<bar>m\<bar>) in
      if 2 ^ 1024 \<le> a then Inl OverflowError
      else Inr (sgn m * int (round53 (a * mant) div 2 ^ ex)))"

text \<open>The doubles nearest to 0.7 and 0.3.\<close>

definition times_0_7 :: "int \<Rightarrow> py_error + int" where
  "times_0_7 m = int_of_product m 6305039478318694 53"

definition times_0_3 :: "int \<Rightarrow> py_error + int" where
  "times_0_3 m = int_of_product m 5404319552844595 54"

section \<open>The truncator\<close>

definition divider :: pystr where
  "divider = [10, 10] @ u ''[...TRUNCATED...]'' @ [10, 10]"

definition truncate_for_translation :: "pystr \<Rightarrow> int \<Rightarrow> py_error + pystr" where
  "truncate_for_translation text0 max_chars =
     (let text = strip text0 in
      if int (length text) \<le> max_chars then Inr text
      else
        (case times_0_7 max_chars of
           Inl e \<Rightarrow> Inl e
         | Inr hn \<Rightarrow>
             (case times_0_3 max_chars of
                Inl e \<Rightarrow> Inl e
              | Inr tn \<Rightarrow> Inr (slice_to text hn @ divider @ slice_from text (- tn)))))"

section \<open>SHA-1 and the two hashed keys\<close>

text \<open>
  \<^verbatim>\<open>s.encode("utf-8", errors="ignore")\<close>: UTF-8, where a code point that cannot be
  encoded (a lone surrogate, \<open>0xD800\<close> to \<open>0xDFFF\<close>) is dropped.
\<close>

definition utf8_char :: "nat \<Rightarrow> pybytes" where
  "utf8_char c =
     (if c < 0x80 then [c]
      else if c < 0x800 then [0xC0 + c div 64, 0x80 + c mod 64]
      else if 0xD800 \<le> c \<and> c \<le> 0xDFFF then []
      else if c < 0x10000 then [0xE0 + c div 4096, 0x80 + c div 64 mod 64, 0x80 + c mod 64]
      else [0xF0 + c div 262144, 0x80 + c div 4096 mod 64, 0x80 + c div 64 mod 64,
            0x80 + c mod 64])"

definition utf8_ignore :: "pystr \<Rightarrow> pybytes" where
  "utf8_ignore s = concat (map utf8_char s)"

text \<open>The strings that UTF-8 encodes in full: code points, none of them a surrogate.\<close>

definition encodable :: "pystr \<Rightarrow> bool" where
  "encodable s = (\<forall>c \<in> set s. c < 0x110000 \<and> \<not> (0xD800 \<le> c \<and> c \<le> 0xDFFF))"

text \<open>
  \<^verbatim>\<open>hashlib.sha1(b).hexdigest()\<close>, the SHA-1 of FIPS 180-4: the message is padded to a
  multiple of 64 bytes, each block is expanded to 80 words and mixed into five 32-bit
  words, and the result is printed as 40 lower-case hexadecimal digits.
\<close>

definition sha1_pad :: "pybytes \<Rightarrow> pybytes" where
  "sha1_pad m =
     (let n = length m; z = (119 - n mod 64) mod 64
      in m @ [0x80] @ replicate z 0 @
         map (\<lambda>i. ((8 * n) div 256 ^ i) mod 256) [7, 6, 5, 4, 3, 2, 1, 0])"

fun be_words :: "pybytes \<Rightarrow> 32 word list" where
  "be_words (a # b # c # d # bs) =
     word_of_nat (((a * 256 + b) * 256 + c) * 256 + d) # be_words bs"
| "be_words _ = []"

fun chunks64 :: "pybytes \<Rightarrow> pybytes list" where
  "chunks64 [] = []"
| "chunks64 bs = take 64 bs # chunks64 (drop 64 bs)"

fun sha1_schedule :: "nat \<Rightarrow> 32 word list \<Rightarrow> 32 word list" where
  "sha1_schedule 0 ws = ws"
| "sha1_schedule (Suc k) ws =
     (let n = length ws
      in sha1_schedule k
           (ws @ [word_rotl 1
                    (ws ! (n - 3) XOR ws ! (n - 8) XOR ws ! (n - 14) XOR ws ! (n - 16))]))"

type_synonym sha1_state = "32 word \<times> 32 word \<times> 32 word \<times> 32 word \<times> 32 word"

definition sha1_f :: "nat \<Rightarrow> 32 word \<Rightarrow> 32 word \<Rightarrow> 32 word \<Rightarrow> 32 word" where
  "sha1_f i b c d =
     (if i < 20 then (b AND c) OR (NOT b AND d)
      else if i < 40 then b XOR c XOR d
      else if i < 60 then (b AND c) OR (b AND d) OR (c AND d)
      else b XOR c XOR d)"

definition sha1_k :: "nat \<Rightarrow> 32 word" where
  "sha1_k i =
     (if i < 20 then 0x5A827999 else if i < 40 then 0x6ED9EBA1
      else if i < 60 then 0x8F1BBCDC else 0xCA62C1D6)"

fun sha1_rounds :: "nat \<Rightarrow> 32 word list \<Rightarrow> sha1_state \<Rightarrow> sha1_state" where
  "sha1_rounds i [] st = st"
| "sha1_rounds i (w # ws) (a, b, c, d, e) =
     sha1_rounds (Suc i) ws
       (word_rotl 5 a + sha1_f i b c d + e + sha1_k i + w, a, word_rotl 30 b, c, d)"

definition sha1_block :: "sha1_state \<Rightarrow> pybytes \<Rightarrow> sha1_state" where
  "sha1_block st blk =
     (case st of (h0, h1, h2, h3, h4) \<Rightarrow>
        (case sha1_rounds 0 (sha1_schedule 64 (be_words blk)) st of
           (a, b, c, d, e) \<Rightarrow> (h0 + a, h1 + b, h2 + c, h3 + d, h4 + e)))"

definition hexdigit :: "nat \<Rightarrow> nat" where
  "hexdigit n = (if n < 10 then 48 + n else 87 + n)"

definition hex32 :: "32 word \<Rightarrow> pystr" where
  "hex32 w = map (\<lambda>i. hexdigit ((unat w div 16 ^ i) mod 16)) [7, 6, 5, 4, 3, 2, 1, 0]"

definition sha1_hexdigest :: "pybytes \<Rightarrow> pystr" where
  "sha1_hexdigest m =
     (case foldl sha1_block (0x67452301, 0xEFCDAB89, 0x98BADCFE, 0x10325476, 0xC3D2E1F0)
             (chunks64 (sha1_pad m)) of
        (h0, h1, h2, h3, h4) \<Rightarrow> hex32 h0 @ hex32 h1 @ hex32 h2 @ hex32 h3 @ hex32 h4)"

definition sha1 :: "pystr \<Rightarrow> pystr" where
  "sha1 s = sha1_hexdigest (utf8_ignore s)"

text \<open>A collision of SHA-1: two different byte strings with the same digest.\<close>

definition sha1_collision :: "pybytes \<Rightarrow> pybytes \<Rightarrow> bool" where
  "sha1_collision a b = (a \<noteq> b \<and> sha1_hexdigest a = sha1_hexdigest b)"

text \<open>
  An entry as the feed parser hands it over: every field may be missing
  (\<^verbatim>\<open>getattr(e, name, default)\<close>).
\<close>

record entry =
  e_id :: "pystr option"
  e_link :: "pystr option"
  e_title :: "pystr option"
  e_summary :: "pystr option"
  e_description :: "pystr option"
  e_published :: "pystr option"
  e_updated :: "pystr option"

text \<open>The string that \<^verbatim>\<open>main\<close> hashes into the entry identity, and the identity.\<close>

definition identity_text :: "entry \<Rightarrow> pystr" where
  "identity_text e = or_empty (e_id e) @ or_empty (e_link e) @ or_empty (e_title e)"

definition entry_identity :: "entry \<Rightarrow> pystr" where
  "entry_identity e = sha1 (identity_text e)"

text \<open>The f-string \<^verbatim>\<open>f"{translator_name}:{target_lang}:{source_text}"\<close> and the cache key.\<close>

definition cache_key_text :: "pystr \<Rightarrow> pystr \<Rightarrow> pystr \<Rightarrow> pystr" where
  "cache_key_text translator_name target_lang source_text =
     translator_name @ u '':'' @ target_lang @ u '':'' @ source_text"

definition cache_key :: "pystr \<Rightarrow> pystr \<Rightarrow> pystr \<Rightarrow> pystr" where
  "cache_key translator_name target_lang source_text =
     sha1 (cache_key_text translator_name target_lang source_text)"

section \<open>The persisted stores\<close>

text \<open>
  The SQLite file holds two tables with a primary key each, so each is a map from
  its key column to the rest of the row.  The state also keeps the trace of the outbound
  effects of the run (requests, extractions, backend calls), which the code does not
  store but which the properties below count.
\<close>

record cache_row =
  row_created_at :: pystr
  row_translator :: pystr
  row_target_lang :: pystr
  row_source_len :: nat
  row_translated :: pystr

datatype event =
  Fetch pystr
  | Extract pystr
  | Translate pystr pystr pystr

record state =
  translated_cache :: "pystr \<rightharpoonup> cache_row"
  seen_items :: "pystr \<rightharpoonup> pystr"
  trace :: "event list"

definition cache_get :: "state \<Rightarrow> pystr \<Rightarrow> pystr option" where
  "cache_get conn key = map_option row_translated (translated_cache conn key)"

text \<open>\<^verbatim>\<open>INSERT OR REPLACE\<close>: the row under \<open>key\<close> is replaced as a whole.\<close>

definition upserted ::
  "state \<Rightarrow> pystr \<Rightarrow> pystr \<Rightarrow> pystr \<Rightarrow> pystr \<Rightarrow> pystr \<Rightarrow> pystr \<Rightarrow> state" where
  "upserted conn now key translator target_lang source_text translated =
     conn\<lparr>translated_cache := (translated_cache conn)(key \<mapsto>
       \<lparr>row_created_at = now, row_translator = translator, row_target_lang = target_lang,
        row_source_len = length source_text, row_translated = translated\<rparr>)\<rparr>"

text \<open>
  \<^verbatim>\<open>cache_put\<close> binds its strings as SQL parameters, and the binding encodes them as
  strict UTF-8: a string with a lone surrogate raises UnicodeEncodeError and nothing is
  stored.  The key is a hexadecimal digest and the time stamp is an ISO date, both
  ASCII; the backend name, the target language and the translation are free text.
\<close>

definition cache_put ::
  "state \<Rightarrow> pystr \<Rightarrow> pystr \<Rightarrow> pystr \<Rightarrow> pystr \<Rightarrow> pystr \<Rightarrow> pystr \<Rightarrow> py_error + state" where
  "cache_put conn now key translator target_lang source_text translated =
     (if encodable translator \<and> encodable target_lang \<and> encodable translated then
        Inr (upserted conn now key translator target_lang source_text translated)
      else Inl UnicodeEncodeError)"

text \<open>
  \<^verbatim>\<open>INSERT OR IGNORE\<close>: an identity already recorded keeps its first row.  Both
  bound strings are ASCII, a hexadecimal digest and an ISO date.
\<close>

definition mark_seen :: "state \<Rightarrow> pystr \<Rightarrow> pystr \<Rightarrow> state" where
  "mark_seen conn now item_id =
     (case seen_items conn item_id of
        Some first_seen \<Rightarrow> conn
      | None \<Rightarrow> conn\<lparr>seen_items := (seen_items conn)(item_id \<mapsto> now)\<rparr>)"

definition is_seen :: "state \<Rightarrow> pystr \<Rightarrow> bool" where
  "is_seen conn item_id = (seen_items conn item_id \<noteq> None)"

section \<open>The collaborators of the pipeline\<close>

text \<open>
  What the pipeline gets from outside: the feed parser, the HTTP client, the HTML
  parser behind \<^verbatim>\<open>extract_main_text\<close> and behind the summary clean-up, the translation
  backend (\<^verbatim>\<open>translator.translate\<close>, which may raise), the date parser with its
  formatting (absent when it raises), the clock (one reading of \<^verbatim>\<open>utcnow\<close> in each of
  its two formats) and the case mapping of the Unicode tables behind \<^verbatim>\<open>str.upper\<close>.
  \<open>Raised\<close> is any exception inside the \<^verbatim>\<open>try\<close> block of \<^verbatim>\<open>fetch_url\<close>.
\<close>

datatype http_outcome = Raised | Response int pystr

record world =
  feed_entries :: "pystr \<Rightarrow> entry list"
  http_get :: "pystr \<Rightarrow> int \<Rightarrow> http_outcome"
  extract_main_text :: "pystr \<Rightarrow> pystr"
  summary_plain :: "pystr \<Rightarrow> pystr"
  backend :: "pystr \<Rightarrow> pystr \<Rightarrow> py_error + pystr"
  rfc822_date :: "pystr \<Rightarrow> pystr option"
  utcnow_iso :: pystr
  utcnow_rfc822 :: pystr
  str_upper :: "pystr \<Rightarrow> pystr"

record config =
  translator_name :: pystr
  target_lang :: pystr
  timeout :: int
  max_items :: int

definition fetch_url :: "world \<Rightarrow> pystr \<Rightarrow> int \<Rightarrow> pystr option" where
  "fetch_url w url tmo =
     (case http_get w url tmo of
        Raised \<Rightarrow> None
      | Response status_code text \<Rightarrow> if 400 \<le> status_code then None else Some text)"

section \<open>The assembler\<close>

record out_item =
  it_title :: pystr
  it_link :: pystr
  it_guid :: pystr
  it_pubDate :: pystr
  it_description :: pystr

definition esc :: "pystr \<Rightarrow> pystr" where
  "esc s =
     replace_char 62 (u ''&gt;'') (replace_char 60 (u ''&lt;'') (replace_char 38 (u ''&amp;'') s))"

text \<open>\<^verbatim>\<open>"\n".join(out)\<close>.\<close>

fun join_lines :: "pystr list \<Rightarrow> pystr" where
  "join_lines [] = []"
| "join_lines [x] = x"
| "join_lines (x # y # ys) = x @ [10] @ join_lines (y # ys)"

text \<open>
  The lines of one item.  An item of \<^verbatim>\<open>main\<close> has all five keys; a missing key would
  read as the empty string (\<^verbatim>\<open>it.get(k, '')\<close>), which is the empty field here.
  Code point 34 is the double quote.
\<close>

definition item_lines :: "out_item \<Rightarrow> pystr list" where
  "item_lines it =
     [u ''<item>'',
      u ''<title>'' @ esc (it_title it) @ u ''</title>'',
      u ''<link>'' @ esc (it_link it) @ u ''</link>'',
      u ''<guid isPermaLink='' @ [34] @ u ''false'' @ [34] @ u ''>'' @ esc (it_guid it) @ u ''</guid>''] @
     (if it_pubDate it \<noteq> [] then [u ''<pubDate>'' @ esc (it_pubDate it) @ u ''</pubDate>'']
      else []) @
     [u ''<description><![CDATA['' @ it_description it @ u '']]></description>'',
      u ''</item>'']"

definition build_rss :: "pystr \<Rightarrow> pystr \<Rightarrow> out_item list \<Rightarrow> pystr" where
  "build_rss now feed_title items =
     join_lines
       ([u ''<?xml version='' @ [34] @ u ''1.0'' @ [34] @ u '' encoding='' @ [34] @ u ''UTF-8'' @
           [34] @ u ''?>'',
         u ''<rss version='' @ [34] @ u ''2.0'' @ [34] @ u ''>'',
         u ''<channel>'',
         u ''<title>'' @ esc feed_title @ u ''</title>'',
         u ''<link></link>'',
         u ''<description>'' @ esc feed_title @ u ''</description>'',
         u ''<lastBuildDate>'' @ now @ u ''</lastBuildDate>''] @
        concat (map item_lines items) @
        [u ''</channel></rss>''])"

section \<open>The orchestrator\<close>

text \<open>
  A step of \<^verbatim>\<open>main\<close> either returns a value and the new state, or an exception
  leaves \<^verbatim>\<open>main\<close> and ends the run; the stores keep what was committed before.
\<close>

type_synonym 'a outcome = "(py_error \<times> state) + ('a \<times> state)"

definition raw_summary :: "entry \<Rightarrow> pystr" where
  "raw_summary e = or_str (or_empty (e_summary e)) (or_str (or_empty (e_description e)) [])"

definition pub_date :: "world \<Rightarrow> entry \<Rightarrow> pystr" where
  "pub_date w e =
     (let published = or_empty (e_published e); updated = or_empty (e_updated e) in
      if published \<noteq> [] then or_empty (rfc822_date w published)
      else if updated \<noteq> [] then or_empty (rfc822_date w updated)
      else [])"

definition fetch_article :: "config \<Rightarrow> world \<Rightarrow> pystr \<Rightarrow> state \<Rightarrow> pystr \<times> state" where
  "fetch_article cfg w link st =
     (if link \<noteq> [] then
        (let st1 = st\<lparr>trace := trace st @ [Fetch link]\<rparr> in
         case fetch_url w link (timeout cfg) of
           None \<Rightarrow> ([], st1)
         | Some html \<Rightarrow>
             if html \<noteq> [] then
               (extract_main_text w html, st1\<lparr>trace := trace st1 @ [Extract html]\<rparr>)
             else ([], st1))
      else ([], st))"

definition choose_source :: "world \<Rightarrow> pystr \<Rightarrow> pystr \<Rightarrow> pystr" where
  "choose_source w article_text summary =
     (if 400 \<le> length (strip article_text) then strip article_text
      else summary_plain w summary)"

text \<open>
  Lines 285 to 292 of \<^verbatim>\<open>main\<close>: the cached translation when it is truthy, else one
  backend call, the source text in place of an empty answer, and the upsert, whose
  exception leaves \<^verbatim>\<open>main\<close> like the one of the backend.
\<close>

definition lookup_or_translate :: "config \<Rightarrow> world \<Rightarrow> pystr \<Rightarrow> state \<Rightarrow> pystr outcome" where
  "lookup_or_translate cfg w source_text st =
     (let key = cache_key (translator_name cfg) (target_lang cfg) source_text;
          translated = cache_get st key in
      if translated = None \<or> translated = Some [] then
        (let st1 = st\<lparr>trace := trace st @
                     [Translate (translator_name cfg) (target_lang cfg) source_text]\<rparr> in
         case backend w source_text (target_lang cfg) of
           Inl err \<Rightarrow> Inl (err, st1)
         | Inr answer \<Rightarrow>
             (let translated = or_str answer source_text in
              case cache_put st1 (utcnow_iso w) key (translator_name cfg) (target_lang cfg)
                     source_text translated of
                Inl err \<Rightarrow> Inl (err, st1)
              | Inr st2 \<Rightarrow> Inr (translated, st2)))
      else Inr (or_empty translated, st))"

definition orig_snip :: "pystr \<Rightarrow> pystr" where
  "orig_snip source_text =
     (if 600 < length source_text then take 600 source_text @ u ''...'' else source_text)"

definition br :: "pystr \<Rightarrow> pystr" where
  "br s = replace_char 10 (u ''<br/>'') s"

definition translated_block :: "pystr \<Rightarrow> pystr" where
  "translated_block translated = u ''<p><b>Translated:</b></p><p>'' @ br translated @ u ''</p>''"

definition snippet_block :: "pystr \<Rightarrow> pystr" where
  "snippet_block source_text =
     u ''<hr/><p><b>Original snippet:</b></p><p>'' @ br (orig_snip source_text) @ u ''</p>''"

definition build_desc :: "pystr \<Rightarrow> pystr \<Rightarrow> pystr" where
  "build_desc translated source_text = translated_block translated @ snippet_block source_text"

definition process_entry :: "config \<Rightarrow> world \<Rightarrow> state \<Rightarrow> entry \<Rightarrow> out_item option outcome" where
  "process_entry cfg w st e =
     (let link = or_empty (e_link e); eid = entry_identity e in
      if is_seen st eid then Inr (None, st)
      else
        (let raw_title = or_empty (e_title e);
             pub = pub_date w e;
             (article_text, st1) = fetch_article cfg w link st;
             chosen = choose_source w article_text (raw_summary e)
         in case truncate_for_translation chosen 12000 of
              Inl err \<Rightarrow> Inl (err, st1)
            | Inr source_text \<Rightarrow>
                (case lookup_or_translate cfg w source_text st1 of
                   Inl crash \<Rightarrow> Inl crash
                 | Inr (translated, st2) \<Rightarrow>
                     Inr (Some \<lparr>it_title = u ''['' @ str_upper w (target_lang cfg) @ u ''] '' @ raw_title,
                                it_link = link, it_guid = eid, it_pubDate = pub,
                                it_description = build_desc translated source_text\<rparr>,
                          mark_seen st2 (utcnow_iso w) eid))))"

fun process_entries ::
  "config \<Rightarrow> world \<Rightarrow> state \<Rightarrow> entry list \<Rightarrow> out_item list \<Rightarrow> out_item list outcome" where
  "process_entries cfg w st [] out_items = Inr (out_items, st)"
| "process_entries cfg w st (e # es) out_items =
     (case process_entry cfg w st e of
        Inl crash \<Rightarrow> Inl crash
      | Inr (None, st') \<Rightarrow> process_entries cfg w st' es out_items
      | Inr (Some it, st') \<Rightarrow> process_entries cfg w st' es (out_items @ [it]))"

record document =
  doc_items :: "out_item list"
  doc_xml :: pystr

text \<open>Code point \<open>0x2192\<close> is the arrow of the channel title.\<close>

definition out_title :: "config \<Rightarrow> pystr \<Rightarrow> pystr" where
  "out_title cfg title = title @ u '' (Translated '' @ [0x2192] @ u '' '' @ target_lang cfg @ u '')''"

definition process_feed :: "config \<Rightarrow> world \<Rightarrow> state \<Rightarrow> pystr \<times> pystr \<Rightarrow> document outcome" where
  "process_feed cfg w st feed =
     (case feed of (title, url) \<Rightarrow>
        (let entries = slice_to (feed_entries w url) (max_items cfg) in
         case process_entries cfg w st entries [] of
           Inl crash \<Rightarrow> Inl crash
         | Inr (out_items, st') \<Rightarrow>
             Inr (\<lparr>doc_items = out_items,
                   doc_xml = build_rss (utcnow_rfc822 w) (out_title cfg title) out_items\<rparr>, st')))"

text \<open>The loop over the feeds; the documents are returned in feed order.\<close>

fun run_feeds ::
  "config \<Rightarrow> world \<Rightarrow> state \<Rightarrow> (pystr \<times> pystr) list \<Rightarrow> document list outcome" where
  "run_feeds cfg w st [] = Inr ([], st)"
| "run_feeds cfg w st (feed # feeds) =
     (case process_feed cfg w st feed of
        Inl crash \<Rightarrow> Inl crash
      | Inr (doc, st') \<Rightarrow>
          (case run_feeds cfg w st' feeds of
             Inl crash \<Rightarrow> Inl crash
           | Inr (docs, st'') \<Rightarrow> Inr (doc # docs, st'')))"

text \<open>The description of the item that a step produced, if it produced one.\<close>

definition item_description :: "out_item option outcome \<Rightarrow> pystr option" where
  "item_description r =
     (case r of Inr (Some item, st) \<Rightarrow> Some (it_description item) | _ \<Rightarrow> None)"

text \<open>
  The entries of a feed that a run looks at (\<^verbatim>\<open>parsed.entries[:max_items]\<close>), and the
  document of a feed without new items.
\<close>

definition capped_entries :: "config \<Rightarrow> world \<Rightarrow> pystr \<times> pystr \<Rightarrow> entry list" where
  "capped_entries cfg w feed = slice_to (feed_entries w (snd feed)) (max_items cfg)"

definition empty_document :: "config \<Rightarrow> world \<Rightarrow> pystr \<times> pystr \<Rightarrow> document" where
  "empty_document cfg w feed =
     \<lparr>doc_items = [], doc_xml = build_rss (utcnow_rfc822 w) (out_title cfg (fst feed)) []\<rparr>"

text \<open>
  The number of backend calls in the trace for one triple of backend name, target
  language and source text; a sequence of runs of \<^verbatim>\<open>main\<close> over the same stores, each
  with its own configuration, collaborators and feed list.
\<close>

definition calls :: "state \<Rightarrow> pystr \<Rightarrow> pystr \<Rightarrow> pystr \<Rightarrow> nat" where
  "calls st name lang text = count_list (trace st) (Translate name lang text)"

fun run_many ::
  "(config \<times> world \<times> (pystr \<times> pystr) list) list \<Rightarrow> state \<Rightarrow> (py_error \<times> state) + state" where
  "run_many [] st = Inr st"
| "run_many ((cfg, w, feeds) # runs) st =
     (case run_feeds cfg w st feeds of
        Inl crash \<Rightarrow> Inl crash
      | Inr (docs, st') \<Rightarrow> run_many runs st')"

text \<open>
  The invariant behind the call count: a triple with a non-empty source text that was
  sent to the backend was sent once, and its key holds a non-empty translation.
\<close>

definition once_inv :: "state \<Rightarrow> bool" where
  "once_inv st =
     (\<forall>name lang text. text \<noteq> [] \<and> 0 < calls st name lang text \<longrightarrow>
        calls st name lang text = 1 \<and>
        (\<exists>t. cache_get st (cache_key name lang text) = Some t \<and> t \<noteq> []))"

text \<open>
  How a reader of the document delimits a CDATA section: it starts after the first
  \<^verbatim>\<open><![CDATA[\<close> and ends before the first \<^verbatim>\<open>]]>\<close> that follows.  \<open>first_cdata\<close> is
  the content of the first such section of a document.
\<close>

fun find_after :: "pystr \<Rightarrow> pystr \<Rightarrow> pystr option" where
  "find_after pat [] = (if pat = [] then Some [] else None)"
| "find_after pat (c # cs) =
     (if prefix pat (c # cs) then Some (drop (length pat) (c # cs)) else find_after pat cs)"

fun take_until :: "pystr \<Rightarrow> pystr \<Rightarrow> pystr option" where
  "take_until pat [] = (if pat = [] then Some [] else None)"
| "take_until pat (c # cs) =
     (if prefix pat (c # cs) then Some [] else map_option ((#) c) (take_until pat cs))"

definition first_cdata :: "pystr \<Rightarrow> pystr option" where
  "first_cdata doc =
     (case find_after (u ''<![CDATA['') doc of
        None \<Rightarrow> None
      | Some rest \<Rightarrow> take_until (u '']]>'') rest)"

section \<open>Sample inputs\<close>

text \<open>
  A configuration with the defaults of \<^verbatim>\<open>main\<close>, the stores before the first run, a
  world without network whose backend answers by a given function, and an entry with an
  id, a title and a summary but no link.  The case mapping of the sample world is the
  one of the ASCII letters, which is what \<^verbatim>\<open>str.upper\<close> does on an ASCII language code.
\<close>

definition ascii_upper :: "pystr \<Rightarrow> pystr" where
  "ascii_upper s = map (\<lambda>c. if 97 \<le> c \<and> c \<le> 122 then c - 32 else c) s"

definition sample_cfg :: config where
  "sample_cfg = \<lparr>translator_name = u ''openai'', target_lang = u ''en'', timeout = 20, max_items = 30\<rparr>"

definition fresh :: state where
  "fresh = \<lparr>translated_cache = Map.empty, seen_items = Map.empty, trace = []\<rparr>"

definition offline_world :: "entry list \<Rightarrow> (pystr \<Rightarrow> py_error + pystr) \<Rightarrow> world" where
  "offline_world entries answer =
     \<lparr>feed_entries = (\<lambda>url. entries), http_get = (\<lambda>url tmo. Raised),
      extract_main_text = (\<lambda>html. []), summary_plain = (\<lambda>summary. summary),
      backend = (\<lambda>text lang. answer text), rfc822_date = (\<lambda>d. None),
      utcnow_iso = u ''2026-01-01T00:00:00'', utcnow_rfc822 = u ''Thu, 01 Jan 2026 00:00:00 +0000'',
      str_upper = ascii_upper\<rparr>"

definition summary_entry :: "pystr \<Rightarrow> pystr \<Rightarrow> entry" where
  "summary_entry ident summary =
     \<lparr>e_id = Some ident, e_link = None, e_title = Some (u ''Storm warning''),
      e_summary = Some summary, e_description = None, e_published = None, e_updated = None\<rparr>"

definition linked_entry :: "pystr \<Rightarrow> pystr \<Rightarrow> entry" where
  "linked_entry link summary =
     \<lparr>e_id = None, e_link = Some link, e_title = Some (u ''Storm warning''),
      e_summary = Some summary, e_description = None, e_published = None, e_updated = None\<rparr>"

definition feed_item :: "pystr option \<Rightarrow> pystr \<Rightarrow> entry" where
  "feed_item ident link =
     \<lparr>e_id = ident, e_link = Some link, e_title = Some (u ''Storm warning''),
      e_summary = None, e_description = None, e_published = None, e_updated = None\<rparr>"

text \<open>
  A target language as \<^verbatim>\<open>os.environ\<close> hands it over when the variable ends in a byte
  that is not UTF-8: the byte becomes the lone surrogate \<open>0xDC80\<close>.  A world whose server
  answers every request with status 300 and a body.
\<close>

definition surrogate_cfg :: config where
  "surrogate_cfg =
     \<lparr>translator_name = u ''openai'', target_lang = u ''en'' @ [0xDC80], timeout = 20,
      max_items = 30\<rparr>"

definition choices_world :: world where
  "choices_world =
     (offline_world [] (\<lambda>t. Inr (u ''ok'')))
       \<lparr>http_get := (\<lambda>url tmo. Response 300 (u ''<a href=x>x</a>'')),
        extract_main_text := (\<lambda>html. replicate 400 97)\<rparr>"

text \<open>An item as \<^verbatim>\<open>main\<close> builds it when the translation contains \<^verbatim>\<open>]]>\<close>.\<close>

definition cdata_item :: out_item where
  "cdata_item =
     \<lparr>it_title = u ''[EN] Storm warning'', it_link = u ''https://x/y'', it_guid = u ''0a1b'',
      it_pubDate = [], it_description = build_desc (u ''a]]>b'') (u ''c'')\<rparr>"

text \<open>The stores with an empty translation under the key of the empty source text.\<close>

definition stored_empty :: state where
  "stored_empty =
     upserted fresh (u ''2026-01-01T00:00:00'') (cache_key (u ''openai'') (u ''en'') [])
       (u ''openai'') (u ''en'') [] []"

text \<open>
  The stores after the lookup step has run once, and twice, for the empty source text
  with a backend that answers with the empty string.
\<close>

definition once_called :: state where
  "once_called =
     upserted (fresh\<lparr>trace := [Translate (u ''openai'') (u ''en'') []]\<rparr>)
       (u ''2026-01-01T00:00:00'') (cache_key (u ''openai'') (u ''en'') [])
       (u ''openai'') (u ''en'') [] []"

definition twice_called :: state where
  "twice_called =
     upserted
       (once_called\<lparr>trace := [Translate (u ''openai'') (u ''en'') [],
                                Translate (u ''openai'') (u ''en'') []]\<rparr>)
       (u ''2026-01-01T00:00:00'') (cache_key (u ''openai'') (u ''en'') [])
       (u ''openai'') (u ''en'') [] []"

section \<open>Basic facts\<close>

lemma length_u [simp]: "length (u s) = length s"
  by (simp add: u_def)

lemma times_0_7_12000: "times_0_7 12000 = Inr 8400"
  by (simp add: times_0_7_def int_of_product_def round53_def bit_len.simps Let_def)

lemma times_0_3_12000: "times_0_3 12000 = Inr 3600"
  by (simp add: times_0_3_def int_of_product_def round53_def bit_len.simps Let_def)

lemma truncate_12000:
  "truncate_for_translation t 12000 =
     Inr (if length (strip t) \<le> 12000 then strip t
          else take 8400 (strip t) @ divider @ drop (length (strip t) - 3600) (strip t))"
  by (simp add: truncate_for_translation_def times_0_7_12000 times_0_3_12000 slice_to_def
      slice_from_def Let_def)

lemma lookup_hit:
  "cache_get st (cache_key (translator_name cfg) (target_lang cfg) src) = Some t \<Longrightarrow> t \<noteq> [] \<Longrightarrow>
   lookup_or_translate cfg w src st = Inr (t, st)"
  by (simp add: lookup_or_translate_def or_empty_def Let_def)

lemma of_char_less_256: "(of_char c :: nat) < 256"
proof -
  have "(of_char (char_of (of_char c :: nat)) :: nat) = of_char c mod 256"
    by (rule of_char_of)
  then have "(of_char c :: nat) mod 256 = of_char c"
    by simp
  then show ?thesis
    by (metis mod_less_divisor zero_less_numeral)
qed

lemma encodable_Nil [simp]: "encodable []"
  by (simp add: encodable_def)

lemma encodable_Cons [simp]:
  "encodable (c # s) \<longleftrightarrow> c < 0x110000 \<and> \<not> (0xD800 \<le> c \<and> c \<le> 0xDFFF) \<and> encodable s"
  by (auto simp add: encodable_def)

lemma encodable_append [simp]: "encodable (a @ b) \<longleftrightarrow> encodable a \<and> encodable b"
  by (auto simp add: encodable_def)

lemma encodable_u [simp]: "encodable (u s)"
proof -
  have "c < 0x110000 \<and> \<not> (0xD800 \<le> c \<and> c \<le> 0xDFFF)" if "c \<in> set (u s)" for c
  proof -
    from that obtain x where "c = of_char x"
      by (auto simp add: u_def)
    with of_char_less_256 [of x] have "c < 256"
      by simp
    then show ?thesis
      by simp
  qed
  then show ?thesis
    by (simp add: encodable_def)
qed

lemma encodable_replicate [simp]: "encodable (replicate n 97)"
  by (simp add: encodable_def)

lemma utf8_ignore_append [simp]: "utf8_ignore (a @ b) = utf8_ignore a @ utf8_ignore b"
  by (simp add: utf8_ignore_def)

lemma utf8_ignore_Cons: "utf8_ignore (c # s) = utf8_char c @ utf8_ignore s"
  by (simp add: utf8_ignore_def)

lemma cache_key_drops_surrogate: "cache_key b (l @ [0xDC80]) t = cache_key b l t"
proof -
  have "utf8_char 0xDC80 = []"
    by (simp add: utf8_char_def)
  then show ?thesis
    by (simp add: cache_key_def cache_key_text_def sha1_def utf8_ignore_Cons)
qed

lemma surrogate_cfg_fields [simp]:
  "translator_name surrogate_cfg = u ''openai''" "target_lang surrogate_cfg = u ''en'' @ [0xDC80]"
  "timeout surrogate_cfg = 20" "max_items surrogate_cfg = 30"
  by (simp_all add: surrogate_cfg_def)

lemma lookup_miss:
  "cache_get st (cache_key (translator_name cfg) (target_lang cfg) src) = None \<or>
   cache_get st (cache_key (translator_name cfg) (target_lang cfg) src) = Some [] \<Longrightarrow>
   lookup_or_translate cfg w src st =
     (let st1 = st\<lparr>trace := trace st @
                  [Translate (translator_name cfg) (target_lang cfg) src]\<rparr> in
      case backend w src (target_lang cfg) of
        Inl err \<Rightarrow> Inl (err, st1)
      | Inr answer \<Rightarrow>
          if encodable (translator_name cfg) \<and> encodable (target_lang cfg) \<and>
             encodable (or_str answer src)
          then Inr (or_str answer src,
                 upserted st1 (utcnow_iso w)
                   (cache_key (translator_name cfg) (target_lang cfg) src)
                   (translator_name cfg) (target_lang cfg) src (or_str answer src))
          else Inl (UnicodeEncodeError, st1))"
  by (auto simp add: lookup_or_translate_def cache_put_def Let_def split: sum.splits)

lemma cache_get_put [simp]:
  "cache_get (upserted st now key tn lg src t) key' = (if key' = key then Some t else cache_get st key')"
  by (simp add: cache_get_def upserted_def)

lemma trace_cache_put [simp]: "trace (upserted st now key tn lg src t) = trace st"
  by (simp add: upserted_def)

lemma seen_cache_put [simp]: "seen_items (upserted st now key tn lg src t) = seen_items st"
  by (simp add: upserted_def)

lemma sample_cfg_fields [simp]:
  "translator_name sample_cfg = u ''openai''" "target_lang sample_cfg = u ''en''"
  "timeout sample_cfg = 20" "max_items sample_cfg = 30"
  by (simp_all add: sample_cfg_def)

lemma str_upper_offline [simp]: "str_upper (offline_world es answer) = ascii_upper"
  by (simp add: offline_world_def)

lemma cache_get_trace_upd [simp]: "cache_get (st\<lparr>trace := x\<rparr>) key = cache_get st key"
  by (simp add: cache_get_def)

lemma process_entry_seen:
  "is_seen st (entry_identity e) \<Longrightarrow> process_entry cfg w st e = Inr (None, st)"
  by (simp add: process_entry_def Let_def)

lemma process_entry_unseen:
  assumes "\<not> is_seen st (entry_identity e)"
    and "fetch_article cfg w (or_empty (e_link e)) st = (article_text, st1)"
    and "truncate_for_translation (choose_source w article_text (raw_summary e)) 12000 = Inr src"
  shows "process_entry cfg w st e =
     (case lookup_or_translate cfg w src st1 of
        Inl crash \<Rightarrow> Inl crash
      | Inr (translated, st2) \<Rightarrow>
          Inr (Some \<lparr>it_title = u ''['' @ str_upper w (target_lang cfg) @ u ''] '' @ or_empty (e_title e),
                     it_link = or_empty (e_link e), it_guid = entry_identity e,
                     it_pubDate = pub_date w e,
                     it_description = build_desc translated src\<rparr>,
               mark_seen st2 (utcnow_iso w) (entry_identity e)))"
  using assms by (simp add: process_entry_def Let_def)

lemma process_entry_item:
  assumes "process_entry cfg w st e = Inr (Some item, st')"
  shows "\<exists>article_text st1 src translated st2.
           \<not> is_seen st (entry_identity e) \<and>
           fetch_article cfg w (or_empty (e_link e)) st = (article_text, st1) \<and>
           truncate_for_translation (choose_source w article_text (raw_summary e)) 12000 = Inr src \<and>
           lookup_or_translate cfg w src st1 = Inr (translated, st2) \<and>
           item = \<lparr>it_title = u ''['' @ str_upper w (target_lang cfg) @ u ''] '' @ or_empty (e_title e),
                    it_link = or_empty (e_link e), it_guid = entry_identity e,
                    it_pubDate = pub_date w e,
                    it_description = build_desc translated src\<rparr> \<and>
           st' = mark_seen st2 (utcnow_iso w) (entry_identity e)"
proof -
  have unseen: "\<not> is_seen st (entry_identity e)"
    using assms by (auto simp add: process_entry_seen)
  obtain article_text st1 where fa:
    "fetch_article cfg w (or_empty (e_link e)) st = (article_text, st1)"
    by (cases "fetch_article cfg w (or_empty (e_link e)) st") auto
  obtain src where tr:
    "truncate_for_translation (choose_source w article_text (raw_summary e)) 12000 = Inr src"
    by (simp add: truncate_12000)
  show ?thesis
    using assms unseen fa tr
    by (auto simp add: process_entry_unseen [OF unseen fa tr] split: sum.splits)
qed


lemma replace_char_absent: "old \<notin> set s \<Longrightarrow> replace_char old new s = s"
  by (induction s) (simp_all add: replace_char_def)

lemma trace_fresh [simp]: "trace fresh = []"
  by (simp add: fresh_def)

lemma summary_entry_unseen_fresh [simp]: "\<not> is_seen fresh x"
  by (simp add: is_seen_def fresh_def)

lemma cache_get_fresh [simp]: "cache_get fresh k = None"
  by (simp add: cache_get_def fresh_def)

lemma backend_offline [simp]: "backend (offline_world es answer) t l = answer t"
  by (simp add: offline_world_def)

lemma utcnow_offline [simp]: "utcnow_iso (offline_world es answer) = u ''2026-01-01T00:00:00''"
  by (simp add: offline_world_def)

lemma offline_summary_entry:
  assumes "\<not> is_seen st (entry_identity (summary_entry ident s))"
    and "strip s = s" and "length s \<le> 12000"
  shows "process_entry cfg (offline_world es answer) st (summary_entry ident s) =
     (case lookup_or_translate cfg (offline_world es answer) s st of
        Inl crash \<Rightarrow> Inl crash
      | Inr (translated, st2) \<Rightarrow>
          Inr (Some \<lparr>it_title = u ''['' @ ascii_upper (target_lang cfg) @ u ''] Storm warning'',
                     it_link = [], it_guid = entry_identity (summary_entry ident s),
                     it_pubDate = [], it_description = build_desc translated s\<rparr>,
               mark_seen st2 (u ''2026-01-01T00:00:00'') (entry_identity (summary_entry ident s))))"
proof -
  have fa: "fetch_article cfg (offline_world es answer)
              (or_empty (e_link (summary_entry ident s))) st = ([], st)"
    by (simp add: fetch_article_def summary_entry_def or_empty_def)
  have "strip [] = []"
    by (simp add: strip_def)
  then have tr: "truncate_for_translation
              (choose_source (offline_world es answer) [] (raw_summary (summary_entry ident s)))
              12000 = Inr s"
    using assms(2,3)
    by (simp add: truncate_12000 choose_source_def raw_summary_def summary_entry_def or_empty_def
        or_str_def offline_world_def)
  show ?thesis
    unfolding process_entry_unseen [OF assms(1) fa tr]
    by (simp add: offline_world_def pub_date_def summary_entry_def or_empty_def u_def
        split: sum.splits)
qed

section \<open>C10: a cached empty translation is a miss\<close>

lemma translated_cache_put:
  "translated_cache (upserted st now key tn lg src t) =
     (translated_cache st)(key \<mapsto>
       \<lparr>row_created_at = now, row_translator = tn, row_target_lang = lg,
        row_source_len = length src, row_translated = t\<rparr>)"
  by (simp add: upserted_def)

text \<open>
  C10, as the code has it.  The lookup \<^verbatim>\<open>if not translated\<close> treats a stored empty
  translation like a missing row: the backend is called again (the call is added to the
  trace).  When the call returns and the backend name, the target language and the
  translation to store hold no lone surrogate, the row is replaced by a new one; when
  one of them holds a lone surrogate the upsert raises, and when the call itself raises
  the run ends there, in both cases with the call issued and the row as it was.  A
  stored non-empty translation is returned without a call and without any change of the
  state.  The pipeline stores an empty translation when the truncated source text is
  empty and the backend answers with the empty string.
\<close>

theorem empty_cached_translation_is_miss:
  fixes cfg :: config and w :: world and st :: state and src :: pystr
  defines "key \<equiv> cache_key (translator_name cfg) (target_lang cfg) src"
  defines "call \<equiv> Translate (translator_name cfg) (target_lang cfg) src"
  shows "(cache_get st key = Some [] \<longrightarrow>
           (\<forall>answer. backend w src (target_lang cfg) = Inr answer \<and>
                encodable (translator_name cfg) \<and> encodable (target_lang cfg) \<and>
                encodable (or_str answer src) \<longrightarrow>
              (\<exists>st'. lookup_or_translate cfg w src st = Inr (or_str answer src, st') \<and>
                     trace st' = trace st @ [call] \<and>
                     translated_cache st' key =
                       Some \<lparr>row_created_at = utcnow_iso w, row_translator = translator_name cfg,
                             row_target_lang = target_lang cfg, row_source_len = length src,
                             row_translated = or_str answer src\<rparr>)) \<and>
           (\<forall>answer. backend w src (target_lang cfg) = Inr answer \<and>
                \<not> (encodable (translator_name cfg) \<and> encodable (target_lang cfg) \<and>
                   encodable (or_str answer src)) \<longrightarrow>
              lookup_or_translate cfg w src st =
                Inl (UnicodeEncodeError, st\<lparr>trace := trace st @ [call]\<rparr>)) \<and>
           (\<forall>err. backend w src (target_lang cfg) = Inl err \<longrightarrow>
              lookup_or_translate cfg w src st = Inl (err, st\<lparr>trace := trace st @ [call]\<rparr>))) \<and>
         (\<forall>t. cache_get st key = Some t \<and> t \<noteq> [] \<longrightarrow>
              lookup_or_translate cfg w src st = Inr (t, st)) \<and>
         (src = [] \<and> cache_get st key = None \<and> backend w src (target_lang cfg) = Inr [] \<and>
          encodable (translator_name cfg) \<and> encodable (target_lang cfg) \<longrightarrow>
           (\<exists>st'. lookup_or_translate cfg w src st = Inr ([], st') \<and>
                  cache_get st' key = Some []))"
proof -
  have put: "\<And>s now k a b c d. translated_cache (upserted s now k a b c d) k =
      Some \<lparr>row_created_at = now, row_translator = a, row_target_lang = b,
            row_source_len = length c, row_translated = d\<rparr>"
    by (simp add: upserted_def)
  have hit: "\<forall>t. cache_get st key = Some t \<and> t \<noteq> [] \<longrightarrow>
              lookup_or_translate cfg w src st = Inr (t, st)"
    unfolding key_def by (simp add: lookup_hit)
  have miss: "cache_get st key = Some [] \<longrightarrow>
           (\<forall>answer. backend w src (target_lang cfg) = Inr answer \<and>
                encodable (translator_name cfg) \<and> encodable (target_lang cfg) \<and>
                encodable (or_str answer src) \<longrightarrow>
              (\<exists>st'. lookup_or_translate cfg w src st = Inr (or_str answer src, st') \<and>
                     trace st' = trace st @ [call] \<and>
                     translated_cache st' key =
                       Some \<lparr>row_created_at = utcnow_iso w, row_translator = translator_name cfg,
                             row_target_lang = target_lang cfg, row_source_len = length src,
                             row_translated = or_str answer src\<rparr>)) \<and>
           (\<forall>answer. backend w src (target_lang cfg) = Inr answer \<and>
                \<not> (encodable (translator_name cfg) \<and> encodable (target_lang cfg) \<and>
                   encodable (or_str answer src)) \<longrightarrow>
              lookup_or_translate cfg w src st =
                Inl (UnicodeEncodeError, st\<lparr>trace := trace st @ [call]\<rparr>)) \<and>
           (\<forall>err. backend w src (target_lang cfg) = Inl err \<longrightarrow>
              lookup_or_translate cfg w src st = Inl (err, st\<lparr>trace := trace st @ [call]\<rparr>))"
    unfolding key_def call_def by (simp add: lookup_miss Let_def put)
  have first: "src = [] \<and> cache_get st key = None \<and> backend w src (target_lang cfg) = Inr [] \<and>
          encodable (translator_name cfg) \<and> encodable (target_lang cfg) \<longrightarrow>
           (\<exists>st'. lookup_or_translate cfg w src st = Inr ([], st') \<and>
                  cache_get st' key = Some [])"
    unfolding key_def by (auto simp add: lookup_miss Let_def or_str_def)
  from miss hit first show ?thesis
    by blast
qed

theorem empty_cached_translation_is_miss_witness:
  "cache_get stored_empty (cache_key (u ''openai'') (u ''en'') []) = Some [] \<and>
   (\<exists>st'. lookup_or_translate sample_cfg (offline_world [] (\<lambda>t. Inr (u ''ok''))) [] stored_empty =
            Inr (u ''ok'', st') \<and>
          trace st' = [Translate (u ''openai'') (u ''en'') []] \<and>
          row_translated (the (translated_cache st' (cache_key (u ''openai'') (u ''en'') []))) = u ''ok'') \<and>
   lookup_or_translate sample_cfg (offline_world [] (\<lambda>t. Inl BackendError)) [] stored_empty =
     Inl (BackendError, stored_empty\<lparr>trace := [Translate (u ''openai'') (u ''en'') []]\<rparr>) \<and>
   (\<exists>st'. lookup_or_translate sample_cfg (offline_world [] (\<lambda>t. Inr [])) [] fresh = Inr ([], st') \<and>
          cache_get st' (cache_key (u ''openai'') (u ''en'') []) = Some [])"
proof -
  have cfg: "translator_name sample_cfg = u ''openai''" "target_lang sample_cfg = u ''en''"
    by (simp_all add: sample_cfg_def)
  have stored: "cache_get stored_empty (cache_key (u ''openai'') (u ''en'') []) = Some []"
    by (simp add: stored_empty_def)
  have tr: "trace stored_empty = []"
    by (simp add: stored_empty_def)
  have none: "cache_get fresh (cache_key (u ''openai'') (u ''en'') []) = None"
    by simp
  have ok: "or_str (u ''ok'') [] = u ''ok''"
    by (simp add: or_str_def u_def)
  note inst = empty_cached_translation_is_miss [where cfg = sample_cfg and src = "[]", unfolded cfg]
  have a: "\<exists>st'. lookup_or_translate sample_cfg (offline_world [] (\<lambda>t. Inr (u ''ok''))) [] stored_empty =
            Inr (u ''ok'', st') \<and>
          trace st' = [Translate (u ''openai'') (u ''en'') []] \<and>
          row_translated (the (translated_cache st' (cache_key (u ''openai'') (u ''en'') []))) = u ''ok''"
    using inst [where st = stored_empty and w = "offline_world [] (\<lambda>t. Inr (u ''ok''))"] stored tr
    by (auto simp add: ok)
  have b: "lookup_or_translate sample_cfg (offline_world [] (\<lambda>t. Inl BackendError)) [] stored_empty =
     Inl (BackendError, stored_empty\<lparr>trace := [Translate (u ''openai'') (u ''en'') []]\<rparr>)"
    using inst [where st = stored_empty and w = "offline_world [] (\<lambda>t. Inl BackendError)"] stored tr
    by simp
  have c: "\<exists>st'. lookup_or_translate sample_cfg (offline_world [] (\<lambda>t. Inr [])) [] fresh = Inr ([], st') \<and>
          cache_get st' (cache_key (u ''openai'') (u ''en'') []) = Some []"
    using inst [where st = fresh and w = "offline_world [] (\<lambda>t. Inr [])"] none
    by simp
  show ?thesis
    using stored a b c by blast
qed

text \<open>
  C10 as stated fails where the upsert raises: with an empty translation stored under
  the key of the target language \<^verbatim>\<open>en\<close>, a lookup for the target language \<^verbatim>\<open>en\<close> followed
  by a lone surrogate finds the same key and takes the row for a miss, the backend is
  called and answers, and the upsert raises on the target language: the row is not
  replaced.
\<close>

theorem empty_translation_not_replaced:
  "cache_get stored_empty
     (cache_key (translator_name surrogate_cfg) (target_lang surrogate_cfg) []) = Some [] \<and>
   lookup_or_translate surrogate_cfg (offline_world [] (\<lambda>t. Inr (u ''ok''))) [] stored_empty =
     Inl (UnicodeEncodeError,
          stored_empty\<lparr>trace := [Translate (u ''openai'') (u ''en'' @ [0xDC80]) []]\<rparr>) \<and>
   cache_get (stored_empty\<lparr>trace := [Translate (u ''openai'') (u ''en'' @ [0xDC80]) []]\<rparr>)
     (cache_key (translator_name surrogate_cfg) (target_lang surrogate_cfg) []) = Some []"
proof -
  have stored: "cache_get stored_empty
     (cache_key (translator_name surrogate_cfg) (target_lang surrogate_cfg) []) = Some []"
    by (simp add: cache_key_drops_surrogate stored_empty_def)
  have tr: "trace stored_empty = []"
    by (simp add: stored_empty_def)
  have "lookup_or_translate surrogate_cfg (offline_world [] (\<lambda>t. Inr (u ''ok''))) [] stored_empty =
     Inl (UnicodeEncodeError,
          stored_empty\<lparr>trace := [Translate (u ''openai'') (u ''en'' @ [0xDC80]) []]\<rparr>)"
    by (simp add: lookup_miss [OF disjI2 [OF stored]] Let_def tr)
  with stored show ?thesis
    by simp
qed

section \<open>C8: the original excerpt\<close>

text \<open>
  C8, as the code has it.  Take an entry that \<^verbatim>\<open>main\<close> turns into an item, and let
  \<open>src\<close> be its truncated source text: the truncation, to 12000 characters, of the
  text chosen from the article fetched for the entry and from its summary.  The
  description of the item is the "Translated" block of the translation that the lookup
  step returns for \<open>src\<close>, followed by the "Original snippet" block, which holds the
  excerpt of \<open>src\<close> with every newline written as \<^verbatim>\<open><br/>\<close>.  The excerpt is \<open>src\<close>
  when it has at most 600 characters, and otherwise its first 600 characters followed by
  three dots: at most 603 characters.
\<close>

theorem original_excerpt_bound:
  assumes "process_entry cfg w st e = Inr (Some item, st')"
    and "truncate_for_translation
           (choose_source w (fst (fetch_article cfg w (or_empty (e_link e)) st)) (raw_summary e))
           12000 = Inr src"
  shows "(\<exists>translated st2.
            lookup_or_translate cfg w src (snd (fetch_article cfg w (or_empty (e_link e)) st)) =
              Inr (translated, st2) \<and>
            it_description item =
              translated_block translated @ u ''<hr/><p><b>Original snippet:</b></p><p>'' @
              br (orig_snip src) @ u ''</p>'') \<and>
         orig_snip src = (if length src \<le> 600 then src else take 600 src @ u ''...'') \<and>
         length (orig_snip src) \<le> 603"
proof -
  from process_entry_item [OF assms(1)] obtain article_text st1 src' translated st2 where
    fa: "fetch_article cfg w (or_empty (e_link e)) st = (article_text, st1)"
    and tr: "truncate_for_translation (choose_source w article_text (raw_summary e)) 12000 = Inr src'"
    and lk: "lookup_or_translate cfg w src' st1 = Inr (translated, st2)"
    and desc: "it_description item = build_desc translated src'"
    by auto
  have "src' = src"
    using assms(2) tr by (simp add: fa)
  with lk desc have "lookup_or_translate cfg w src (snd (fetch_article cfg w (or_empty (e_link e)) st)) =
              Inr (translated, st2) \<and>
            it_description item =
              translated_block translated @ u ''<hr/><p><b>Original snippet:</b></p><p>'' @
              br (orig_snip src) @ u ''</p>''"
    by (simp add: fa build_desc_def snippet_block_def)
  then have "\<exists>translated st2.
            lookup_or_translate cfg w src (snd (fetch_article cfg w (or_empty (e_link e)) st)) =
              Inr (translated, st2) \<and>
            it_description item =
              translated_block translated @ u ''<hr/><p><b>Original snippet:</b></p><p>'' @
              br (orig_snip src) @ u ''</p>''"
    by blast
  then show ?thesis
    by (simp add: orig_snip_def)
qed

theorem original_excerpt_bound_witness:
  "\<exists>item st'. process_entry sample_cfg (offline_world [] (\<lambda>t. Inr (u ''ok''))) fresh
                  (summary_entry (u ''42'') (replicate 601 97)) = Inr (Some item, st') \<and>
     truncate_for_translation
       (choose_source (offline_world [] (\<lambda>t. Inr (u ''ok'')))
          (fst (fetch_article sample_cfg (offline_world [] (\<lambda>t. Inr (u ''ok'')))
                 (or_empty (e_link (summary_entry (u ''42'') (replicate 601 97)))) fresh))
          (raw_summary (summary_entry (u ''42'') (replicate 601 97))))
       12000 = Inr (replicate 601 97) \<and>
     it_description item =
       translated_block (u ''ok'') @ u ''<hr/><p><b>Original snippet:</b></p><p>'' @
       br (replicate 600 97 @ u ''...'') @ u ''</p>'' \<and>
     length (orig_snip (replicate 601 97)) \<le> 603"
proof -
  let ?w = "offline_world [] (\<lambda>t. Inr (u ''ok''))"
  let ?e = "summary_entry (u ''42'') (replicate 601 97)"
  have strip: "strip (replicate 601 97) = replicate 601 97"
    by (simp add: strip_def py_isspace_def)
  have ok: "or_str (u ''ok'') (replicate 601 97) = u ''ok''"
    by (simp add: or_str_def u_def)
  have fa: "fetch_article sample_cfg ?w (or_empty (e_link ?e)) fresh = ([], fresh)"
    by (simp add: fetch_article_def summary_entry_def or_empty_def)
  have "strip [] = []"
    by (simp add: strip_def)
  then have tr: "truncate_for_translation
       (choose_source ?w (fst (fetch_article sample_cfg ?w (or_empty (e_link ?e)) fresh))
          (raw_summary ?e)) 12000 = Inr (replicate 601 97)"
    unfolding fa
    by (simp add: truncate_12000 choose_source_def raw_summary_def summary_entry_def
        or_empty_def or_str_def offline_world_def strip)
  have lk: "lookup_or_translate sample_cfg ?w (replicate 601 97) fresh =
      Inr (u ''ok'', upserted (fresh\<lparr>trace := [Translate (u ''openai'') (u ''en'') (replicate 601 97)]\<rparr>)
        (u ''2026-01-01T00:00:00'') (cache_key (u ''openai'') (u ''en'') (replicate 601 97))
        (u ''openai'') (u ''en'') (replicate 601 97) (u ''ok''))"
    by (simp add: lookup_miss Let_def ok)
  have "\<exists>item st'. process_entry sample_cfg ?w fresh ?e = Inr (Some item, st')"
    by (simp add: offline_summary_entry strip lk)
  then obtain item st' where run: "process_entry sample_cfg ?w fresh ?e = Inr (Some item, st')"
    by blast
  from original_excerpt_bound [OF run tr] have
    "it_description item =
       translated_block (u ''ok'') @ u ''<hr/><p><b>Original snippet:</b></p><p>'' @
       br (orig_snip (replicate 601 97)) @ u ''</p>''"
    and "length (orig_snip (replicate 601 97)) \<le> 603"
    by (simp_all add: fa lk)
  with run tr show ?thesis
    by (simp add: orig_snip_def)
qed

text \<open>
  C8 as stated fails: a source text of 601 characters gives an excerpt of 603
  characters, not at most 600.
\<close>

theorem original_excerpt_603:
  "length (orig_snip (replicate 601 97)) = 603 \<and>
   snippet_block (replicate 601 97) =
     u ''<hr/><p><b>Original snippet:</b></p><p>'' @ replicate 600 97 @ u ''...'' @ u ''</p>''"
proof -
  have "br (replicate 600 97 @ u ''...'') = replicate 600 97 @ u ''...''"
    unfolding br_def by (rule replace_char_absent) (simp add: u_def)
  then show ?thesis
    by (simp add: snippet_block_def orig_snip_def)
qed

section \<open>C4: the source text in place of an empty answer\<close>

lemma cache_fetch_article:
  "fetch_article cfg w link st = (article_text, st1) \<Longrightarrow>
   translated_cache st1 = translated_cache st \<and> seen_items st1 = seen_items st"
  by (auto simp add: fetch_article_def Let_def split: if_splits option.splits)

lemma cache_get_fetch_article:
  "fetch_article cfg w link st = (article_text, st1) \<Longrightarrow> cache_get st1 key = cache_get st key"
  by (simp add: cache_get_def cache_fetch_article)

lemma translated_cache_mark_seen [simp]:
  "translated_cache (mark_seen st now x) = translated_cache st"
  by (simp add: mark_seen_def split: option.splits)

lemma trace_mark_seen [simp]: "trace (mark_seen st now x) = trace st"
  by (simp add: mark_seen_def split: option.splits)

lemma strip_anb: "strip [97, 10, 98] = [97, 10, 98]"
  by (simp add: strip_def py_isspace_def)

lemma strip_hello: "strip (u ''hello'') = u ''hello''"
  by (simp add: strip_def u_def py_isspace_def)

text \<open>
  C4, as the code has it.  Take an unseen entry whose truncated source text \<open>src\<close> misses
  the cache (no row under its key, or a row with an empty translation), and for which the
  backend answers with the empty string.  The source text stands in for the translation
  and goes to the upsert.  When the backend name, the target language and \<open>src\<close> hold no
  lone surrogate, the entry becomes an item: the "Translated" block of the description
  holds \<open>src\<close> with every newline written as \<^verbatim>\<open><br/>\<close>, and the row stored under the
  cache key of \<open>src\<close> has \<open>src\<close> itself in its \<open>translated\<close> column.  Otherwise the upsert
  raises \<^verbatim>\<open>UnicodeEncodeError\<close>, which ends the run after the backend call: there is no
  item and the stores are as they were.
\<close>

theorem substitution_on_empty_answer:
  assumes "\<not> is_seen st (entry_identity e)"
    and "fetch_article cfg w (or_empty (e_link e)) st = (article_text, st1)"
    and "truncate_for_translation (choose_source w article_text (raw_summary e)) 12000 = Inr src"
    and "cache_get st (cache_key (translator_name cfg) (target_lang cfg) src) = None \<or>
         cache_get st (cache_key (translator_name cfg) (target_lang cfg) src) = Some []"
    and "backend w src (target_lang cfg) = Inr []"
  shows "(encodable (translator_name cfg) \<and> encodable (target_lang cfg) \<and> encodable src \<longrightarrow>
          (\<exists>item st'.
             process_entry cfg w st e = Inr (Some item, st') \<and>
             it_description item =
               u ''<p><b>Translated:</b></p><p>'' @ br src @ u ''</p>'' @ snippet_block src \<and>
             translated_cache st' (cache_key (translator_name cfg) (target_lang cfg) src) =
               Some \<lparr>row_created_at = utcnow_iso w, row_translator = translator_name cfg,
                     row_target_lang = target_lang cfg, row_source_len = length src,
                     row_translated = src\<rparr>)) \<and>
         (\<not> (encodable (translator_name cfg) \<and> encodable (target_lang cfg) \<and> encodable src) \<longrightarrow>
          process_entry cfg w st e =
            Inl (UnicodeEncodeError,
                 st1\<lparr>trace := trace st1 @
                        [Translate (translator_name cfg) (target_lang cfg) src]\<rparr>))"
proof -
  have miss: "cache_get st1 (cache_key (translator_name cfg) (target_lang cfg) src) = None \<or>
      cache_get st1 (cache_key (translator_name cfg) (target_lang cfg) src) = Some []"
    using assms(2,4) by (simp add: cache_get_fetch_article)
  have sub: "or_str [] src = src"
    by (simp add: or_str_def)
  have lk: "lookup_or_translate cfg w src st1 =
      (if encodable (translator_name cfg) \<and> encodable (target_lang cfg) \<and> encodable src
       then Inr (src,
              upserted (st1\<lparr>trace := trace st1 @
                          [Translate (translator_name cfg) (target_lang cfg) src]\<rparr>)
                (utcnow_iso w) (cache_key (translator_name cfg) (target_lang cfg) src)
                (translator_name cfg) (target_lang cfg) src src)
       else Inl (UnicodeEncodeError,
              st1\<lparr>trace := trace st1 @
                     [Translate (translator_name cfg) (target_lang cfg) src]\<rparr>))"
    by (simp add: lookup_miss [OF miss] assms(5) Let_def sub)
  show ?thesis
    unfolding process_entry_unseen [OF assms(1,2,3)] lk
    by (simp add: build_desc_def translated_block_def translated_cache_put)
qed

theorem substitution_on_empty_answer_witness:
  "\<exists>item st'.
     process_entry sample_cfg (offline_world [] (\<lambda>t. Inr [])) fresh
       (summary_entry (u ''42'') (u ''hello'')) = Inr (Some item, st') \<and>
     it_description item =
       u ''<p><b>Translated:</b></p><p>'' @ br (u ''hello'') @ u ''</p>'' @ snippet_block (u ''hello'') \<and>
     row_translated (the (translated_cache st' (cache_key (u ''openai'') (u ''en'') (u ''hello'')))) =
       u ''hello''"
proof -
  let ?w = "offline_world [] (\<lambda>t. Inr [])"
  let ?e = "summary_entry (u ''42'') (u ''hello'')"
  have fa: "fetch_article sample_cfg ?w (or_empty (e_link ?e)) fresh = ([], fresh)"
    by (simp add: fetch_article_def summary_entry_def or_empty_def)
  have "strip [] = []"
    by (simp add: strip_def)
  then have tr: "truncate_for_translation (choose_source ?w [] (raw_summary ?e)) 12000 =
      Inr (u ''hello'')"
    by (simp add: truncate_12000 choose_source_def raw_summary_def summary_entry_def or_empty_def
        or_str_def offline_world_def strip_hello)
  have unseen: "\<not> is_seen fresh (entry_identity ?e)"
    by simp
  have miss: "cache_get fresh (cache_key (translator_name sample_cfg) (target_lang sample_cfg) (u ''hello'')) = None \<or>
      cache_get fresh (cache_key (translator_name sample_cfg) (target_lang sample_cfg) (u ''hello'')) = Some []"
    by simp
  have answer: "backend ?w (u ''hello'') (target_lang sample_cfg) = Inr []"
    by (simp add: offline_world_def)
  have enc: "encodable (translator_name sample_cfg) \<and> encodable (target_lang sample_cfg) \<and>
      encodable (u ''hello'')"
    by simp
  from substitution_on_empty_answer [OF unseen fa tr miss answer] enc show ?thesis
    by auto
qed

text \<open>
  C4 as stated fails where the source text has a newline: for the summary
  \<^verbatim>\<open>a\nb\<close> and a backend that answers with the empty string, the "Translated" block is
  \<^verbatim>\<open>a<br/>b\<close>, not the source text.  It fails as well where the target language holds
  a lone surrogate (\<^verbatim>\<open>os.environ\<close> decodes an undecodable byte to one): the upsert raises,
  so the entry gives no item and no row.
\<close>

theorem substitution_writes_br:
  "item_description
     (process_entry sample_cfg (offline_world [] (\<lambda>t. Inr [])) fresh
        (summary_entry (u ''42'') [97, 10, 98])) =
     Some (u ''<p><b>Translated:</b></p><p>a<br/>b</p><hr/><p><b>Original snippet:</b></p><p>a<br/>b</p>'') \<and>
   item_description
     (process_entry sample_cfg (offline_world [] (\<lambda>t. Inr [])) fresh
        (summary_entry (u ''42'') [97, 10, 98])) \<noteq>
     Some (u ''<p><b>Translated:</b></p><p>'' @ [97, 10, 98] @ u ''</p>'' @ snippet_block [97, 10, 98]) \<and>
   process_entry surrogate_cfg (offline_world [] (\<lambda>t. Inr [])) fresh
     (summary_entry (u ''42'') (u ''hello'')) =
     Inl (UnicodeEncodeError,
          fresh\<lparr>trace := [Translate (u ''openai'') (u ''en'' @ [0xDC80]) (u ''hello'')]\<rparr>)"
proof -
  have a: "item_description
     (process_entry sample_cfg (offline_world [] (\<lambda>t. Inr [])) fresh
        (summary_entry (u ''42'') [97, 10, 98])) =
     Some (u ''<p><b>Translated:</b></p><p>a<br/>b</p><hr/><p><b>Original snippet:</b></p><p>a<br/>b</p>'')"
    by (simp add: offline_summary_entry strip_anb lookup_miss Let_def item_description_def or_str_def
      build_desc_def translated_block_def snippet_block_def br_def replace_char_def orig_snip_def
      u_def encodable_def)
  have b: "Some (u ''<p><b>Translated:</b></p><p>a<br/>b</p><hr/><p><b>Original snippet:</b></p><p>a<br/>b</p>'') \<noteq>
     Some (u ''<p><b>Translated:</b></p><p>'' @ [97, 10, 98] @ u ''</p>'' @ snippet_block [97, 10, 98])"
    by (simp add: snippet_block_def u_def)
  have "\<not> encodable (u ''en'' @ [0xDC80])"
    by (simp add: encodable_def)
  then have c: "process_entry surrogate_cfg (offline_world [] (\<lambda>t. Inr [])) fresh
     (summary_entry (u ''42'') (u ''hello'')) =
     Inl (UnicodeEncodeError,
          fresh\<lparr>trace := [Translate (u ''openai'') (u ''en'' @ [0xDC80]) (u ''hello'')]\<rparr>)"
    by (simp add: offline_summary_entry strip_hello lookup_miss Let_def)
  from a b c show ?thesis
    by simp
qed

section \<open>C7: the fetcher returns absence and the orchestrator degrades\<close>

lemma strip_Nil [simp]: "strip [] = []"
  by (simp add: strip_def)

lemma fetch_article_absent:
  "link \<noteq> [] \<Longrightarrow> fetch_url w link (timeout cfg) = None \<Longrightarrow>
   fetch_article cfg w link st = ([], st\<lparr>trace := trace st @ [Fetch link]\<rparr>)"
  by (simp add: fetch_article_def Let_def)

text \<open>
  C7, as the code has it.  \<^verbatim>\<open>fetch_url\<close> returns an optional text and nothing else:
  every exception of the request (network error, timeout) is caught, so its result type
  has no error.  It returns absence exactly when the request raised or the status code
  is 400 or above, and the text of the response for every status code below 400.
  When the fetch of an unseen entry's link returns absence, the entry is processed from
  its own summary text: the source text is the truncated plain summary, one request is
  in the trace, and the step builds the item from it; the step ends the run only where
  the lookup step does (the backend or the upsert raises).
\<close>

theorem fetch_absent_and_degrade:
  "(fetch_url w url tmo = None \<longleftrightarrow>
      http_get w url tmo = Raised \<or>
      (\<exists>status_code text. http_get w url tmo = Response status_code text \<and> 400 \<le> status_code)) \<and>
   (\<forall>status_code text. http_get w url tmo = Response status_code text \<and> status_code < 400 \<longrightarrow>
      fetch_url w url tmo = Some text) \<and>
   (\<not> is_seen st (entry_identity e) \<and> or_empty (e_link e) \<noteq> [] \<and>
    fetch_url w (or_empty (e_link e)) (timeout cfg) = None \<longrightarrow>
      (\<exists>src. truncate_for_translation (summary_plain w (raw_summary e)) 12000 = Inr src \<and>
         process_entry cfg w st e =
           (case lookup_or_translate cfg w src
                   (st\<lparr>trace := trace st @ [Fetch (or_empty (e_link e))]\<rparr>) of
              Inl crash \<Rightarrow> Inl crash
            | Inr (translated, st2) \<Rightarrow>
                Inr (Some \<lparr>it_title = u ''['' @ str_upper w (target_lang cfg) @ u ''] '' @ or_empty (e_title e),
                           it_link = or_empty (e_link e), it_guid = entry_identity e,
                           it_pubDate = pub_date w e,
                           it_description = build_desc translated src\<rparr>,
                     mark_seen st2 (utcnow_iso w) (entry_identity e)))))"
proof -
  have a: "fetch_url w url tmo = None \<longleftrightarrow>
      http_get w url tmo = Raised \<or>
      (\<exists>status_code text. http_get w url tmo = Response status_code text \<and> 400 \<le> status_code)"
    by (cases "http_get w url tmo") (simp_all add: fetch_url_def)
  have b: "\<forall>status_code text. http_get w url tmo = Response status_code text \<and> status_code < 400 \<longrightarrow>
      fetch_url w url tmo = Some text"
    by (simp add: fetch_url_def)
  have c: "\<exists>src. truncate_for_translation (summary_plain w (raw_summary e)) 12000 = Inr src \<and>
         process_entry cfg w st e =
           (case lookup_or_translate cfg w src
                   (st\<lparr>trace := trace st @ [Fetch (or_empty (e_link e))]\<rparr>) of
              Inl crash \<Rightarrow> Inl crash
            | Inr (translated, st2) \<Rightarrow>
                Inr (Some \<lparr>it_title = u ''['' @ str_upper w (target_lang cfg) @ u ''] '' @ or_empty (e_title e),
                           it_link = or_empty (e_link e), it_guid = entry_identity e,
                           it_pubDate = pub_date w e,
                           it_description = build_desc translated src\<rparr>,
                     mark_seen st2 (utcnow_iso w) (entry_identity e)))"
    if unseen: "\<not> is_seen st (entry_identity e)" and link: "or_empty (e_link e) \<noteq> []"
      and absent: "fetch_url w (or_empty (e_link e)) (timeout cfg) = None"
  proof -
    obtain src where tr: "truncate_for_translation (summary_plain w (raw_summary e)) 12000 = Inr src"
      by (simp add: truncate_12000)
    then have tr': "truncate_for_translation (choose_source w [] (raw_summary e)) 12000 = Inr src"
      by (simp add: choose_source_def)
    show ?thesis
      using tr process_entry_unseen [OF unseen fetch_article_absent [OF link absent] tr']
      by blast
  qed
  show ?thesis
    using a b c by blast
qed

theorem fetch_absent_and_degrade_witness:
  "http_get (offline_world [] (\<lambda>t. Inr (u ''ok''))) (u ''https://x/y'') 20 = Raised \<and>
   fetch_url (offline_world [] (\<lambda>t. Inr (u ''ok''))) (u ''https://x/y'') 20 = None \<and>
   item_description
     (process_entry sample_cfg (offline_world [] (\<lambda>t. Inr (u ''ok''))) fresh
        (linked_entry (u ''https://x/y'') (u ''hello''))) =
     Some (build_desc (u ''ok'') (u ''hello''))"
proof -
  let ?w = "offline_world [] (\<lambda>t. Inr (u ''ok''))"
  let ?e = "linked_entry (u ''https://x/y'') (u ''hello'')"
  have raised: "http_get ?w (u ''https://x/y'') 20 = Raised"
    by (simp add: offline_world_def)
  have link: "or_empty (e_link ?e) = u ''https://x/y''" "u ''https://x/y'' \<noteq> []"
    by (simp_all add: linked_entry_def or_empty_def u_def)
  have tmo: "timeout sample_cfg = 20"
    by (simp add: sample_cfg_def)
  have absent: "fetch_url ?w (u ''https://x/y'') 20 = None"
    using fetch_absent_and_degrade [of ?w "u ''https://x/y''" 20 fresh ?e sample_cfg] raised
    by blast
  have tr: "truncate_for_translation (summary_plain ?w (raw_summary ?e)) 12000 = Inr (u ''hello'')"
    by (simp add: truncate_12000 raw_summary_def linked_entry_def or_empty_def or_str_def
        offline_world_def strip_hello)
  have unseen: "\<not> is_seen fresh (entry_identity ?e)"
    by simp
  have absent': "fetch_url ?w (or_empty (e_link ?e)) (timeout sample_cfg) = None"
    using absent by (simp add: link tmo)
  have link': "or_empty (e_link ?e) \<noteq> []"
    by (simp add: link)
  note inst = fetch_absent_and_degrade [of ?w "u ''https://x/y''" 20 fresh ?e sample_cfg,
      THEN conjunct2, THEN conjunct2, THEN mp, OF conjI [OF unseen conjI [OF link' absent']]]
  then obtain src where src: "truncate_for_translation (summary_plain ?w (raw_summary ?e)) 12000 = Inr src"
    and run: "process_entry sample_cfg ?w fresh ?e =
           (case lookup_or_translate sample_cfg ?w src
                   (fresh\<lparr>trace := trace fresh @ [Fetch (or_empty (e_link ?e))]\<rparr>) of
              Inl crash \<Rightarrow> Inl crash
            | Inr (translated, st2) \<Rightarrow>
                Inr (Some \<lparr>it_title = u ''['' @ str_upper ?w (target_lang sample_cfg) @ u ''] '' @ or_empty (e_title ?e),
                           it_link = or_empty (e_link ?e), it_guid = entry_identity ?e,
                           it_pubDate = pub_date ?w ?e,
                           it_description = build_desc translated src\<rparr>,
                     mark_seen st2 (utcnow_iso ?w) (entry_identity ?e)))"
    by blast
  have hello: "src = u ''hello''"
    using src tr by simp
  have ok: "or_str (u ''ok'') (u ''hello'') = u ''ok''"
    by (simp add: or_str_def u_def)
  have "item_description (process_entry sample_cfg ?w fresh ?e) = Some (build_desc (u ''ok'') (u ''hello''))"
    unfolding run hello
    by (simp add: lookup_miss Let_def item_description_def ok)
  then show ?thesis
    using raised absent by blast
qed

text \<open>
  C7 as stated fails for a status code below 400 that is no success code.  For a
  response with status code 300 (Multiple Choices) \<^verbatim>\<open>fetch_url\<close> returns the text of the
  response, not absence, and \<^verbatim>\<open>main\<close> does not degrade to the summary of the entry: the
  text extracted from that response (400 characters here) is the source text of the
  item, and the summary \<^verbatim>\<open>hello\<close> is not used.
\<close>

theorem fetch_returns_body_below_400:
  "http_get choices_world (u ''https://x/y'') 20 = Response 300 (u ''<a href=x>x</a>'') \<and>
   fetch_url choices_world (u ''https://x/y'') 20 = Some (u ''<a href=x>x</a>'') \<and>
   fetch_article sample_cfg choices_world (u ''https://x/y'') fresh =
     (replicate 400 97,
      fresh\<lparr>trace := [Fetch (u ''https://x/y''), Extract (u ''<a href=x>x</a>'')]\<rparr>) \<and>
   item_description
     (process_entry sample_cfg choices_world fresh
        (linked_entry (u ''https://x/y'') (u ''hello''))) =
     Some (build_desc (u ''ok'') (replicate 400 97))"
proof -
  let ?e = "linked_entry (u ''https://x/y'') (u ''hello'')"
  have get: "http_get choices_world (u ''https://x/y'') 20 = Response 300 (u ''<a href=x>x</a>'')"
    by (simp add: choices_world_def)
  then have url: "fetch_url choices_world (u ''https://x/y'') 20 = Some (u ''<a href=x>x</a>'')"
    by (simp add: fetch_url_def)
  have body: "u ''<a href=x>x</a>'' \<noteq> []" "u ''https://x/y'' \<noteq> []"
    by (simp_all add: u_def)
  have ex: "extract_main_text choices_world (u ''<a href=x>x</a>'') = replicate 400 97"
    by (simp add: choices_world_def)
  have fa: "fetch_article sample_cfg choices_world (u ''https://x/y'') fresh =
     (replicate 400 97,
      fresh\<lparr>trace := [Fetch (u ''https://x/y''), Extract (u ''<a href=x>x</a>'')]\<rparr>)"
    by (simp add: fetch_article_def Let_def url body ex)
  have link: "or_empty (e_link ?e) = u ''https://x/y''"
    by (simp add: linked_entry_def or_empty_def)
  have fa': "fetch_article sample_cfg choices_world (or_empty (e_link ?e)) fresh =
     (replicate 400 97,
      fresh\<lparr>trace := [Fetch (u ''https://x/y''), Extract (u ''<a href=x>x</a>'')]\<rparr>)"
    unfolding link by (rule fa)
  have strip: "strip (replicate 400 97) = replicate 400 97"
    by (simp add: strip_def py_isspace_def)
  have tr: "truncate_for_translation
      (choose_source choices_world (replicate 400 97) (raw_summary ?e)) 12000 =
      Inr (replicate 400 97)"
    by (simp add: truncate_12000 choose_source_def strip)
  have unseen: "\<not> is_seen fresh (entry_identity ?e)"
    by simp
  have bk: "backend choices_world (replicate 400 97) (u ''en'') = Inr (u ''ok'')"
    by (simp add: choices_world_def offline_world_def)
  have ok: "or_str (u ''ok'') (replicate 400 97) = u ''ok''"
    by (simp add: or_str_def u_def)
  have run: "item_description (process_entry sample_cfg choices_world fresh ?e) =
      Some (build_desc (u ''ok'') (replicate 400 97))"
    unfolding process_entry_unseen [OF unseen fa' tr]
    by (simp add: lookup_miss Let_def item_description_def bk ok)
  from get url fa run show ?thesis
    by simp
qed

section \<open>C1: a second run has no new items\<close>

lemma is_seen_mark_seen [simp]:
  "is_seen (mark_seen st now x) y \<longleftrightarrow> y = x \<or> is_seen st y"
  by (auto simp add: is_seen_def mark_seen_def split: option.splits)

lemma seen_items_lookup:
  "lookup_or_translate cfg w src st = Inr (t, st') \<Longrightarrow> seen_items st' = seen_items st"
  by (auto simp add: lookup_or_translate_def cache_put_def upserted_def Let_def
      split: if_splits sum.splits)

lemma process_entry_None:
  assumes "process_entry cfg w st e = Inr (None, st')"
  shows "is_seen st (entry_identity e) \<and> st' = st"
proof (cases "is_seen st (entry_identity e)")
  case True
  then show ?thesis
    using assms by (simp add: process_entry_seen)
next
  case False
  obtain article_text st1 where fa:
    "fetch_article cfg w (or_empty (e_link e)) st = (article_text, st1)"
    by (cases "fetch_article cfg w (or_empty (e_link e)) st") auto
  obtain src where tr:
    "truncate_for_translation (choose_source w article_text (raw_summary e)) 12000 = Inr src"
    by (simp add: truncate_12000)
  have False
    using assms unfolding process_entry_unseen [OF False fa tr]
    by (simp split: sum.splits prod.splits)
  then show ?thesis ..
qed

lemma process_entry_Some_state:
  assumes "process_entry cfg w st e = Inr (Some item, st')"
  shows "\<exists>article_text st1 src translated st2.
           fetch_article cfg w (or_empty (e_link e)) st = (article_text, st1) \<and>
           lookup_or_translate cfg w src st1 = Inr (translated, st2) \<and>
           st' = mark_seen st2 (utcnow_iso w) (entry_identity e)"
  using process_entry_item [OF assms] by blast

lemma process_entry_seen_after:
  assumes "process_entry cfg w st e = Inr (r, st')"
  shows "is_seen st' (entry_identity e) \<and> (\<forall>x. is_seen st x \<longrightarrow> is_seen st' x)"
proof (cases r)
  case None
  with assms have "process_entry cfg w st e = Inr (None, st')"
    by simp
  from process_entry_None [OF this] show ?thesis
    by simp
next
  case (Some item)
  with assms have run: "process_entry cfg w st e = Inr (Some item, st')"
    by simp
  from process_entry_Some_state [OF run] obtain article_text st1 src translated st2 where
    fa: "fetch_article cfg w (or_empty (e_link e)) st = (article_text, st1)"
    and lk: "lookup_or_translate cfg w src st1 = Inr (translated, st2)"
    and st': "st' = mark_seen st2 (utcnow_iso w) (entry_identity e)"
    by blast
  have "seen_items st2 = seen_items st"
    using seen_items_lookup [OF lk] cache_fetch_article [OF fa] by simp
  then have "\<And>x. is_seen st2 x = is_seen st x"
    by (simp add: is_seen_def)
  then show ?thesis
    by (simp add: st')
qed

lemma process_entries_seen_after:
  "process_entries cfg w st es acc = Inr (items, st') \<Longrightarrow>
   (\<forall>e \<in> set es. is_seen st' (entry_identity e)) \<and> (\<forall>x. is_seen st x \<longrightarrow> is_seen st' x)"
proof (induction es arbitrary: st acc)
  case Nil
  then show ?case by simp
next
  case (Cons e es)
  then obtain r st1 where step: "process_entry cfg w st e = Inr (r, st1)"
    by (cases "process_entry cfg w st e") auto
  then obtain acc1 where rest: "process_entries cfg w st1 es acc1 = Inr (items, st')"
    using Cons.prems by (cases r) auto
  from Cons.IH [OF rest] process_entry_seen_after [OF step]
  show ?case by auto
qed

lemma process_entries_all_seen:
  "\<forall>e \<in> set es. is_seen st (entry_identity e) \<Longrightarrow>
   process_entries cfg w st es acc = Inr (acc, st)"
  by (induction es) (simp_all add: process_entry_seen)

lemma process_feed_seen_after:
  assumes "process_feed cfg w st feed = Inr (doc, st')"
  shows "(\<forall>e \<in> set (capped_entries cfg w feed). is_seen st' (entry_identity e)) \<and>
         (\<forall>x. is_seen st x \<longrightarrow> is_seen st' x)"
proof -
  obtain title url where feed: "feed = (title, url)"
    by (cases feed)
  obtain items where "process_entries cfg w st (slice_to (feed_entries w url) (max_items cfg)) [] =
      Inr (items, st')"
    using assms by (auto simp add: process_feed_def feed Let_def split: sum.splits)
  from process_entries_seen_after [OF this] show ?thesis
    by (simp add: capped_entries_def feed)
qed

lemma process_feed_all_seen:
  "\<forall>e \<in> set (capped_entries cfg w feed). is_seen st (entry_identity e) \<Longrightarrow>
   process_feed cfg w st feed = Inr (empty_document cfg w feed, st)"
  by (cases feed)
    (simp add: process_feed_def capped_entries_def empty_document_def process_entries_all_seen)

lemma run_feeds_seen_after:
  "run_feeds cfg w st feeds = Inr (docs, st') \<Longrightarrow>
   (\<forall>feed \<in> set feeds. \<forall>e \<in> set (capped_entries cfg w feed). is_seen st' (entry_identity e)) \<and>
   (\<forall>x. is_seen st x \<longrightarrow> is_seen st' x)"
proof (induction feeds arbitrary: st docs)
  case Nil
  then show ?case by simp
next
  case (Cons feed feeds)
  then obtain doc st1 where first: "process_feed cfg w st feed = Inr (doc, st1)"
    by (cases "process_feed cfg w st feed") auto
  then obtain docs1 where rest: "run_feeds cfg w st1 feeds = Inr (docs1, st')"
    using Cons.prems by (auto split: sum.splits)
  from Cons.IH [OF rest] process_feed_seen_after [OF first]
  show ?case by auto
qed

lemma run_feeds_all_seen:
  "\<forall>feed \<in> set feeds. \<forall>e \<in> set (capped_entries cfg w feed). is_seen st (entry_identity e) \<Longrightarrow>
   run_feeds cfg w st feeds = Inr (map (empty_document cfg w) feeds, st)"
proof (induction feeds)
  case Nil
  then show ?case by simp
next
  case (Cons feed feeds)
  have first: "process_feed cfg w st feed = Inr (empty_document cfg w feed, st)"
    using Cons.prems by (intro process_feed_all_seen) simp
  have rest: "run_feeds cfg w st feeds = Inr (map (empty_document cfg w) feeds, st)"
    using Cons.prems by (intro Cons.IH) simp
  show ?case
    by (simp add: first rest)
qed

lemma feed_entries_offline [simp]: "feed_entries (offline_world es answer) url = es"
  by (simp add: offline_world_def)

lemma or_str_ok [simp]: "or_str (u ''ok'') s = u ''ok''"
  by (simp add: or_str_def u_def)

lemma sample_first_run:
  "\<exists>item st1.
     run_feeds sample_cfg (offline_world [summary_entry (u ''42'') (u ''hello'')] (\<lambda>t. Inr (u ''ok'')))
       fresh [(u ''Granma'', u ''https://g/rss'')] =
     Inr ([\<lparr>doc_items = [item],
            doc_xml = build_rss (u ''Thu, 01 Jan 2026 00:00:00 +0000'')
                        (out_title sample_cfg (u ''Granma'')) [item]\<rparr>], st1) \<and>
     trace st1 = [Translate (u ''openai'') (u ''en'') (u ''hello'')]"
  by (simp add: process_feed_def slice_to_def sample_cfg_def offline_summary_entry strip_hello
      lookup_miss Let_def)
    (simp add: offline_world_def)




section \<open>C6: one backend call per triple\<close>

lemma once_inv_fresh_trace: "trace st = [] \<Longrightarrow> once_inv st"
  by (simp add: once_inv_def calls_def)

lemma once_inv_cong:
  assumes "once_inv st" and "translated_cache st' = translated_cache st"
    and "\<And>name lang text. calls st' name lang text = calls st name lang text"
  shows "once_inv st'"
  using assms by (simp add: once_inv_def cache_get_def)

lemma calls_fetch_article:
  "fetch_article cfg w link st = (article_text, st1) \<Longrightarrow>
   calls st1 name lang text = calls st name lang text"
  by (auto simp add: fetch_article_def Let_def calls_def split: if_splits option.splits)

lemma calls_mark_seen [simp]: "calls (mark_seen st now x) name lang text = calls st name lang text"
  by (simp add: calls_def)

lemma once_inv_lookup:
  assumes inv: "once_inv st"
    and run: "lookup_or_translate cfg w src st = Inr (translated, st')"
  shows "once_inv st'"
proof (cases "cache_get st (cache_key (translator_name cfg) (target_lang cfg) src) = None \<or>
              cache_get st (cache_key (translator_name cfg) (target_lang cfg) src) = Some []")
  case False
  then obtain t where "cache_get st (cache_key (translator_name cfg) (target_lang cfg) src) = Some t"
    and "t \<noteq> []"
    by auto
  then have "st' = st"
    using run by (simp add: lookup_hit)
  then show ?thesis
    using inv by simp
next
  case miss: True
  let ?key = "cache_key (translator_name cfg) (target_lang cfg) src"
  let ?st1 = "st\<lparr>trace := trace st @ [Translate (translator_name cfg) (target_lang cfg) src]\<rparr>"
  obtain answer where st': "st' = upserted ?st1 (utcnow_iso w) ?key (translator_name cfg)
      (target_lang cfg) src (or_str answer src)"
    using run unfolding lookup_miss [OF miss]
    by (auto simp add: Let_def split: sum.splits if_splits)
  have calls': "\<And>name lang source. calls st' name lang source =
      calls st name lang source +
      (if Translate (translator_name cfg) (target_lang cfg) src = Translate name lang source then 1 else 0)"
    by (simp add: st' calls_def)
  have get': "\<And>k. cache_get st' k = (if k = ?key then Some (or_str answer src) else cache_get st k)"
    by (simp add: st')
  show ?thesis
    unfolding once_inv_def
  proof (intro allI impI)
    fix name lang source
    assume a: "source \<noteq> [] \<and> 0 < calls st' name lang source"
    show "calls st' name lang source = 1 \<and>
        (\<exists>t. cache_get st' (cache_key name lang source) = Some t \<and> t \<noteq> [])"
    proof (cases "Translate (translator_name cfg) (target_lang cfg) src = Translate name lang source")
      case True
      then have same: "name = translator_name cfg" "lang = target_lang cfg" "source = src"
        by simp_all
      have "calls st name lang source = 0"
      proof (rule ccontr)
        assume "calls st name lang source \<noteq> 0"
        then have "\<exists>t. cache_get st (cache_key name lang source) = Some t \<and> t \<noteq> []"
          using inv a by (simp add: once_inv_def)
        then show False
          using miss by (auto simp add: same)
      qed
      then show ?thesis
        using a by (simp add: calls' get' same or_str_def)
    next
      case False
      then have c: "calls st' name lang source = calls st name lang source"
        by (simp add: calls')
      then have old: "calls st name lang source = 1"
        "\<exists>t. cache_get st (cache_key name lang source) = Some t \<and> t \<noteq> []"
        using inv a by (simp_all add: once_inv_def)
      then have "cache_key name lang source \<noteq> ?key"
        using miss by auto
      then show ?thesis
        using old c by (simp add: get')
    qed
  qed
qed

lemma once_inv_process_entry:
  assumes "once_inv st" and "process_entry cfg w st e = Inr (r, st')"
  shows "once_inv st'"
proof (cases r)
  case None
  with assms(2) have "process_entry cfg w st e = Inr (None, st')"
    by simp
  from process_entry_None [OF this] assms(1) show ?thesis
    by simp
next
  case (Some item)
  with assms(2) have run: "process_entry cfg w st e = Inr (Some item, st')"
    by simp
  from process_entry_Some_state [OF run] obtain article_text st1 src translated st2 where
    fa: "fetch_article cfg w (or_empty (e_link e)) st = (article_text, st1)"
    and lk: "lookup_or_translate cfg w src st1 = Inr (translated, st2)"
    and st': "st' = mark_seen st2 (utcnow_iso w) (entry_identity e)"
    by blast
  have "translated_cache st1 = translated_cache st"
    using cache_fetch_article [OF fa] by blast
  with assms(1) have "once_inv st1"
    by (rule once_inv_cong) (rule calls_fetch_article [OF fa])
  then have "once_inv st2"
    using lk by (rule once_inv_lookup)
  then show ?thesis
    unfolding st' by (rule once_inv_cong) simp_all
qed

lemma once_inv_process_entries:
  "once_inv st \<Longrightarrow> process_entries cfg w st es acc = Inr (items, st') \<Longrightarrow> once_inv st'"
proof (induction es arbitrary: st acc)
  case Nil
  then show ?case by simp
next
  case (Cons e es)
  then obtain r st1 where step: "process_entry cfg w st e = Inr (r, st1)"
    by (cases "process_entry cfg w st e") auto
  then obtain acc1 where rest: "process_entries cfg w st1 es acc1 = Inr (items, st')"
    using Cons.prems by (cases r) auto
  from once_inv_process_entry [OF Cons.prems(1) step] rest show ?case
    by (rule Cons.IH)
qed

lemma once_inv_run_feeds:
  "once_inv st \<Longrightarrow> run_feeds cfg w st feeds = Inr (docs, st') \<Longrightarrow> once_inv st'"
proof (induction feeds arbitrary: st docs)
  case Nil
  then show ?case by simp
next
  case (Cons feed feeds)
  then obtain doc st1 where first: "process_feed cfg w st feed = Inr (doc, st1)"
    by (cases "process_feed cfg w st feed") auto
  then obtain docs1 where rest: "run_feeds cfg w st1 feeds = Inr (docs1, st')"
    using Cons.prems by (auto split: sum.splits)
  obtain items where "process_entries cfg w st (capped_entries cfg w feed) [] = Inr (items, st1)"
    using first by (cases feed) (auto simp add: process_feed_def capped_entries_def split: sum.splits)
  with Cons.prems(1) have "once_inv st1"
    by (rule once_inv_process_entries)
  then show ?case
    using rest by (rule Cons.IH)
qed

lemma once_inv_run_many:
  "once_inv st \<Longrightarrow> run_many runs st = Inr st' \<Longrightarrow> once_inv st'"
proof (induction runs arbitrary: st)
  case Nil
  then show ?case by simp
next
  case (Cons run runs)
  obtain cfg w feeds where run: "run = (cfg, w, feeds)"
    by (cases run)
  obtain docs st1 where first: "run_feeds cfg w st feeds = Inr (docs, st1)"
    and rest: "run_many runs st1 = Inr st'"
    using Cons.prems(2) by (auto simp add: run split: sum.splits)
  from once_inv_run_feeds [OF Cons.prems(1) first] rest show ?case
    by (rule Cons.IH)
qed

lemma sample_two_runs:
  "\<exists>st'.
     run_many
       [(sample_cfg, offline_world [summary_entry (u ''42'') (u ''hello'')] (\<lambda>t. Inr (u ''ok'')),
         [(u ''Granma'', u ''https://g/rss'')]),
        (sample_cfg, offline_world [summary_entry (u ''42'') (u ''hello'')] (\<lambda>t. Inr (u ''ok'')),
         [(u ''Granma'', u ''https://g/rss'')])] fresh = Inr st' \<and>
     trace st' = [Translate (u ''openai'') (u ''en'') (u ''hello'')]"
proof -
  let ?w = "offline_world [summary_entry (u ''42'') (u ''hello'')] (\<lambda>t. Inr (u ''ok''))"
  let ?feeds = "[(u ''Granma'', u ''https://g/rss'')]"
  from sample_first_run obtain docs st1 where
    run: "run_feeds sample_cfg ?w fresh ?feeds = Inr (docs, st1)"
    and tr: "trace st1 = [Translate (u ''openai'') (u ''en'') (u ''hello'')]"
    by blast
  have "\<forall>feed \<in> set ?feeds. \<forall>e \<in> set (capped_entries sample_cfg ?w feed).
          is_seen st1 (entry_identity e)"
    using run_feeds_seen_after [OF run] by blast
  then have "run_feeds sample_cfg ?w st1 ?feeds = Inr (map (empty_document sample_cfg ?w) ?feeds, st1)"
    by (rule run_feeds_all_seen)
  with run tr show ?thesis
    by simp
qed

text \<open>
  C6, as the code has it.  A lookup that finds a non-empty translation under the key of
  a triple returns it without a backend call and leaves the state as it was.  So over
  any sequence of completed runs on the same stores, starting with an empty trace, a
  triple with a non-empty source text is sent to the backend at most once, and once it
  was sent its key holds a non-empty translation.
\<close>

theorem one_backend_call_per_stored_triple:
  "(\<forall>t. cache_get st (cache_key (translator_name cfg) (target_lang cfg) src) = Some t \<and> t \<noteq> [] \<longrightarrow>
        lookup_or_translate cfg w src st = Inr (t, st)) \<and>
   (trace st0 = [] \<and> run_many runs st0 = Inr st' \<and> source \<noteq> [] \<longrightarrow>
      calls st' name lang source \<le> 1 \<and>
      (calls st' name lang source = 1 \<longrightarrow>
         (\<exists>t. cache_get st' (cache_key name lang source) = Some t \<and> t \<noteq> [])))"
proof -
  have "calls st' name lang source \<le> 1 \<and>
      (calls st' name lang source = 1 \<longrightarrow>
         (\<exists>t. cache_get st' (cache_key name lang source) = Some t \<and> t \<noteq> []))"
    if "trace st0 = []" and "run_many runs st0 = Inr st'" and "source \<noteq> []"
  proof -
    have "once_inv st'"
      using once_inv_fresh_trace [OF that(1)] that(2) by (rule once_inv_run_many)
    then show ?thesis
      using that(3) unfolding once_inv_def
      by (cases "calls st' name lang source = 0") auto
  qed
  then show ?thesis
    by (auto simp add: lookup_hit)
qed


theorem one_backend_call_per_stored_triple_witness:
  "\<exists>st' t.
     run_many
       [(sample_cfg, offline_world [summary_entry (u ''42'') (u ''hello'')] (\<lambda>t. Inr (u ''ok'')),
         [(u ''Granma'', u ''https://g/rss'')]),
        (sample_cfg, offline_world [summary_entry (u ''42'') (u ''hello'')] (\<lambda>t. Inr (u ''ok'')),
         [(u ''Granma'', u ''https://g/rss'')])] fresh = Inr st' \<and>
     calls st' (u ''openai'') (u ''en'') (u ''hello'') = 1 \<and>
     cache_get st' (cache_key (u ''openai'') (u ''en'') (u ''hello'')) = Some t \<and> t \<noteq> [] \<and>
     lookup_or_translate sample_cfg (offline_world [] (\<lambda>t. Inl BackendError)) (u ''hello'') st' =
       Inr (t, st')"
proof -
  let ?w = "offline_world [summary_entry (u ''42'') (u ''hello'')] (\<lambda>t. Inr (u ''ok''))"
  let ?runs = "[(sample_cfg, ?w, [(u ''Granma'', u ''https://g/rss'')]),
                (sample_cfg, ?w, [(u ''Granma'', u ''https://g/rss'')])]"
  from sample_two_runs obtain st' where
    run: "run_many ?runs fresh = Inr st'"
    and tr: "trace st' = [Translate (u ''openai'') (u ''en'') (u ''hello'')]"
    by blast
  have one: "calls st' (u ''openai'') (u ''en'') (u ''hello'') = 1"
    by (simp add: calls_def tr)
  have ne: "u ''hello'' \<noteq> []"
    by (simp add: u_def)
  note inst = one_backend_call_per_stored_triple [where ?st0.0 = fresh and runs = ?runs and st' = st'
      and source = "u ''hello''" and name = "u ''openai''" and lang = "u ''en''" and st = st'
      and cfg = sample_cfg and src = "u ''hello''" and w = "offline_world [] (\<lambda>t. Inl BackendError)"]
  from inst run one ne obtain t where
    t: "cache_get st' (cache_key (u ''openai'') (u ''en'') (u ''hello'')) = Some t" "t \<noteq> []"
    by auto
  with inst have "lookup_or_translate sample_cfg (offline_world [] (\<lambda>t. Inl BackendError)) (u ''hello'') st' =
       Inr (t, st')"
    by simp
  with run one t show ?thesis
    by blast
qed

text \<open>
  C6 as stated fails for the empty source text: a backend that answers with the empty
  string leaves an empty translation under the key, the next lookup for the same triple
  takes it for a miss, and the trace holds two calls for one triple.
\<close>

theorem empty_source_called_twice:
  "lookup_or_translate sample_cfg (offline_world [] (\<lambda>t. Inr [])) [] fresh = Inr ([], once_called) \<and>
   cache_get once_called (cache_key (u ''openai'') (u ''en'') []) = Some [] \<and>
   lookup_or_translate sample_cfg (offline_world [] (\<lambda>t. Inr [])) [] once_called =
     Inr ([], twice_called) \<and>
   calls twice_called (u ''openai'') (u ''en'') [] = 2"
proof -
  have first: "lookup_or_translate sample_cfg (offline_world [] (\<lambda>t. Inr [])) [] fresh =
      Inr ([], once_called)"
    by (simp add: lookup_miss Let_def or_str_def once_called_def)
  have stored: "cache_get once_called (cache_key (u ''openai'') (u ''en'') []) = Some []"
    by (simp add: once_called_def)
  have tr: "trace once_called = [Translate (u ''openai'') (u ''en'') []]"
    by (simp add: once_called_def)
  have second: "lookup_or_translate sample_cfg (offline_world [] (\<lambda>t. Inr [])) [] once_called =
      Inr ([], twice_called)"
    by (simp add: lookup_miss stored Let_def or_str_def twice_called_def tr)
  have "calls twice_called (u ''openai'') (u ''en'') [] = 2"
    by (simp add: calls_def twice_called_def)
  with first stored second show ?thesis
    by blast
qed

section \<open>C2 and C5: the hashed keys\<close>

lemma div_mod_64_eqI: "(a::nat) div 64 = b div 64 \<Longrightarrow> a mod 64 = b mod 64 \<Longrightarrow> a = b"
  by (metis div_mult_mod_eq)

lemma div_64_64: "(a::nat) div 64 div 64 = a div 4096"
  by (simp add: div_mult2_eq [symmetric])

lemma div_64_64_64: "(a::nat) div 64 div 64 div 64 = a div 262144"
  by (simp add: div_mult2_eq [symmetric])

lemma utf8_char_cases:
  assumes "c < 0x110000" "\<not> (0xD800 \<le> c \<and> c \<le> 0xDFFF)"
  obtains (one) "c < 0x80" "utf8_char c = [c]"
  | (two) "utf8_char c = [0xC0 + c div 64, 0x80 + c mod 64]" "c div 64 < 32"
  | (three) "utf8_char c = [0xE0 + c div 4096, 0x80 + c div 64 mod 64, 0x80 + c mod 64]"
      "c div 4096 < 16"
  | (four) "utf8_char c = [0xF0 + c div 262144, 0x80 + c div 4096 mod 64, 0x80 + c div 64 mod 64,
            0x80 + c mod 64]"
proof -
  consider "c < 0x80" | "0x80 \<le> c" "c < 0x800" | "0x800 \<le> c" "c < 0x10000" | "0x10000 \<le> c"
    by linarith
  then show thesis
  proof cases
    case 1
    then show thesis by (intro one) (simp_all add: utf8_char_def)
  next
    case 2
    then show thesis by (intro two) (simp_all add: utf8_char_def div_less_iff_less_mult)
  next
    case 3
    with assms show thesis by (intro three) (simp_all add: utf8_char_def div_less_iff_less_mult)
  next
    case 4
    with assms show thesis by (intro four) (simp_all add: utf8_char_def)
  qed
qed

lemma utf8_char_cancel:
  assumes c: "c < 0x110000" "\<not> (0xD800 \<le> c \<and> c \<le> 0xDFFF)"
    and d: "d < 0x110000" "\<not> (0xD800 \<le> d \<and> d \<le> 0xDFFF)"
    and eq: "utf8_char c @ xs = utf8_char d @ ys"
  shows "c = d \<and> xs = ys"
  using c
proof (cases rule: utf8_char_cases)
  case one
  from d show ?thesis
  proof (cases rule: utf8_char_cases)
    case d1: one
    from eq one(2) d1(2) show ?thesis by simp
  next
    case d2: two
    from eq one(2) d2(1) have "c = 0xC0 + d div 64" by simp
    with one(1) show ?thesis by simp
  next
    case d3: three
    from eq one(2) d3(1) have "c = 0xE0 + d div 4096" by simp
    with one(1) show ?thesis by simp
  next
    case d4: four
    from eq one(2) d4(1) have "c = 0xF0 + d div 262144" by simp
    with one(1) show ?thesis by simp
  qed
next
  case two
  from d show ?thesis
  proof (cases rule: utf8_char_cases)
    case d1: one
    from eq two(1) d1(2) have "d = 0xC0 + c div 64" by simp
    with d1(1) show ?thesis by simp
  next
    case d2: two
    from eq two(1) d2(1) have e: "c div 64 = d div 64" "c mod 64 = d mod 64" and xs: "xs = ys"
      by simp_all
    from e have "c = d" by (rule div_mod_64_eqI)
    with xs show ?thesis by simp
  next
    case d3: three
    from eq two(1) d3(1) have "0xC0 + c div 64 = 0xE0 + d div 4096" by simp
    with two(2) show ?thesis by simp
  next
    case d4: four
    from eq two(1) d4(1) have "0xC0 + c div 64 = 0xF0 + d div 262144" by simp
    with two(2) show ?thesis by simp
  qed
next
  case three
  from d show ?thesis
  proof (cases rule: utf8_char_cases)
    case d1: one
    from eq three(1) d1(2) have "d = 0xE0 + c div 4096" by simp
    with d1(1) show ?thesis by simp
  next
    case d2: two
    from eq three(1) d2(1) have "0xE0 + c div 4096 = 0xC0 + d div 64" by simp
    with d2(2) show ?thesis by simp
  next
    case d3: three
    from eq three(1) d3(1) have e: "c div 4096 = d div 4096" "c div 64 mod 64 = d div 64 mod 64"
      "c mod 64 = d mod 64" and xs: "xs = ys"
      by simp_all
    have "c div 64 = d div 64"
      by (rule div_mod_64_eqI) (simp_all add: div_64_64 e)
    then have "c = d" using e(3) by (rule div_mod_64_eqI)
    with xs show ?thesis by simp
  next
    case d4: four
    from eq three(1) d4(1) have "0xE0 + c div 4096 = 0xF0 + d div 262144" by simp
    with three(2) show ?thesis by simp
  qed
next
  case four
  from d show ?thesis
  proof (cases rule: utf8_char_cases)
    case d1: one
    from eq four d1(2) have "d = 0xF0 + c div 262144" by simp
    with d1(1) show ?thesis by simp
  next
    case d2: two
    from eq four d2(1) have "0xF0 + c div 262144 = 0xC0 + d div 64" by simp
    with d2(2) show ?thesis by simp
  next
    case d3: three
    from eq four d3(1) have "0xF0 + c div 262144 = 0xE0 + d div 4096" by simp
    with d3(2) show ?thesis by simp
  next
    case d4: four
    from eq four d4 have e: "c div 262144 = d div 262144" "c div 4096 mod 64 = d div 4096 mod 64"
      "c div 64 mod 64 = d div 64 mod 64" "c mod 64 = d mod 64" and xs: "xs = ys"
      by simp_all
    have "c div 64 div 64 = d div 64 div 64"
      by (rule div_mod_64_eqI) (simp only: div_64_64_64 e(1), simp only: div_64_64 e(2))
    then have "c div 64 = d div 64" using e(3) by (rule div_mod_64_eqI)
    then have "c = d" using e(4) by (rule div_mod_64_eqI)
    with xs show ?thesis by simp
  qed
qed

lemma utf8_char_nonempty:
  "c < 0x110000 \<Longrightarrow> \<not> (0xD800 \<le> c \<and> c \<le> 0xDFFF) \<Longrightarrow> utf8_char c \<noteq> []"
  by (auto simp add: utf8_char_def)

lemma utf8_ignore_inj:
  "encodable s \<Longrightarrow> encodable t \<Longrightarrow> utf8_ignore s = utf8_ignore t \<Longrightarrow> s = t"
proof (induction s arbitrary: t)
  case Nil
  show ?case
  proof (cases t)
    case Nil then show ?thesis by simp
  next
    case (Cons d ds)
    with Nil.prems have "utf8_char d \<noteq> []"
      by (intro utf8_char_nonempty) (auto simp add: encodable_def)
    with Nil.prems Cons show ?thesis
      by (simp add: utf8_ignore_def)
  qed
next
  case (Cons c cs)
  show ?case
  proof (cases t)
    case Nil
    from Cons.prems have "utf8_char c \<noteq> []"
      by (intro utf8_char_nonempty) (auto simp add: encodable_def)
    with Cons.prems Nil show ?thesis
      by (simp add: utf8_ignore_def)
  next
    case t: (Cons d ds)
    have "utf8_char c @ utf8_ignore cs = utf8_char d @ utf8_ignore ds"
      using Cons.prems(3) by (simp add: utf8_ignore_def t)
    moreover have "c < 0x110000" "\<not> (0xD800 \<le> c \<and> c \<le> 0xDFFF)"
      "d < 0x110000" "\<not> (0xD800 \<le> d \<and> d \<le> 0xDFFF)"
      using Cons.prems(1,2) by (auto simp add: encodable_def t)
    ultimately have "c = d \<and> utf8_ignore cs = utf8_ignore ds"
      by (intro utf8_char_cancel)
    moreover have "encodable cs" "encodable ds"
      using Cons.prems(1,2) by (auto simp add: encodable_def t)
    ultimately show ?thesis
      using Cons.IH [of ds] by (simp add: t)
  qed
qed



text \<open>
  C2, as the code has it.  The cache key is the SHA-1 digest, in hexadecimal, of the
  UTF-8 bytes of backend name, colon, target language, colon, source text, where a code
  point that UTF-8 cannot encode is dropped.  It is a function of the three strings, so
  equal inputs give equal keys.  For a fixed backend and text, two target languages are
  hashed from the same bytes exactly when their encodings are equal; two different
  languages without surrogates are hashed from different bytes, so their keys differ
  unless SHA-1 collides on those bytes.
\<close>

theorem cache_key_hash:
  "cache_key b l t = sha1_hexdigest (utf8_ignore (b @ u '':'' @ l @ u '':'' @ t)) \<and>
   ((b, l, t) = (b', l', t') \<longrightarrow> cache_key b l t = cache_key b' l' t') \<and>
   (utf8_ignore (cache_key_text b l1 t) = utf8_ignore (cache_key_text b l2 t) \<longleftrightarrow>
      utf8_ignore l1 = utf8_ignore l2) \<and>
   (encodable l1 \<and> encodable l2 \<and> l1 \<noteq> l2 \<longrightarrow>
      utf8_ignore (cache_key_text b l1 t) \<noteq> utf8_ignore (cache_key_text b l2 t) \<and>
      (sha1_collision (utf8_ignore (cache_key_text b l1 t)) (utf8_ignore (cache_key_text b l2 t)) \<or>
       cache_key b l1 t \<noteq> cache_key b l2 t))"
proof -
  have "utf8_ignore l1 \<noteq> utf8_ignore l2" if "encodable l1" "encodable l2" "l1 \<noteq> l2"
    using that utf8_ignore_inj by blast
  then show ?thesis
    by (auto simp add: cache_key_def cache_key_text_def sha1_def sha1_collision_def)
qed

theorem cache_key_hash_witness:
  "encodable (u ''en'') \<and> encodable (u ''fr'') \<and> u ''en'' \<noteq> u ''fr'' \<and>
   utf8_ignore (cache_key_text (u ''openai'') (u ''en'') (u ''hello'')) \<noteq>
     utf8_ignore (cache_key_text (u ''openai'') (u ''fr'') (u ''hello'')) \<and>
   (sha1_collision (utf8_ignore (cache_key_text (u ''openai'') (u ''en'') (u ''hello'')))
      (utf8_ignore (cache_key_text (u ''openai'') (u ''fr'') (u ''hello''))) \<or>
    cache_key (u ''openai'') (u ''en'') (u ''hello'') \<noteq> cache_key (u ''openai'') (u ''fr'') (u ''hello''))"
proof -
  have ne: "u ''en'' \<noteq> u ''fr''"
    by (simp add: u_def)
  have enc: "encodable (u ''en'')" "encodable (u ''fr'')"
    by (simp_all add: encodable_def u_def)
  with ne cache_key_hash [of "u ''openai''" "u ''en''" "u ''hello''" "u ''openai''" "u ''en''"
      "u ''hello''" "u ''en''" "u ''fr''"]
  show ?thesis
    by blast
qed

text \<open>
  C2 as stated fails: a target language read from the environment may end in a lone
  surrogate (an undecodable byte of the variable), which the encoding drops, so two
  distinct target languages give the same key.
\<close>

theorem cache_key_ignores_surrogate:
  "u ''en'' @ [0xDC80] \<noteq> u ''en'' \<and>
   cache_key (u ''openai'') (u ''en'' @ [0xDC80]) (u ''hello'') =
     cache_key (u ''openai'') (u ''en'') (u ''hello'')"
proof -
  have "utf8_char 0xDC80 = []"
    by (simp add: utf8_char_def)
  then show ?thesis
    by (simp add: cache_key_def cache_key_text_def sha1_def utf8_ignore_Cons)
qed

text \<open>
  C5, as the code has it.  The identity is the SHA-1 digest of the concatenation of
  upstream id, link and title, each the empty string when absent.  Equal field values
  give equal identities, and so do two entries with the same concatenation.  Two entries
  that differ in exactly one of the three strings have different concatenations; two
  entries with different encodable concatenations have different identities unless
  SHA-1 collides on their bytes.
\<close>

theorem entry_identity_hash:
  "entry_identity e = sha1 (or_empty (e_id e) @ or_empty (e_link e) @ or_empty (e_title e)) \<and>
   (e_id e = None \<longrightarrow> entry_identity e = sha1 (or_empty (e_link e) @ or_empty (e_title e))) \<and>
   (e_id e1 = e_id e2 \<and> e_link e1 = e_link e2 \<and> e_title e1 = e_title e2 \<longrightarrow>
      entry_identity e1 = entry_identity e2) \<and>
   (identity_text e1 = identity_text e2 \<longrightarrow> entry_identity e1 = entry_identity e2) \<and>
   ((or_empty (e_id e1) \<noteq> or_empty (e_id e2) \<and> e_link e1 = e_link e2 \<and> e_title e1 = e_title e2) \<or>
    (e_id e1 = e_id e2 \<and> or_empty (e_link e1) \<noteq> or_empty (e_link e2) \<and> e_title e1 = e_title e2) \<or>
    (e_id e1 = e_id e2 \<and> e_link e1 = e_link e2 \<and> or_empty (e_title e1) \<noteq> or_empty (e_title e2)) \<longrightarrow>
      identity_text e1 \<noteq> identity_text e2) \<and>
   (encodable (identity_text e1) \<and> encodable (identity_text e2) \<and>
    identity_text e1 \<noteq> identity_text e2 \<longrightarrow>
      utf8_ignore (identity_text e1) \<noteq> utf8_ignore (identity_text e2) \<and>
      (sha1_collision (utf8_ignore (identity_text e1)) (utf8_ignore (identity_text e2)) \<or>
       entry_identity e1 \<noteq> entry_identity e2))"
proof -
  have "utf8_ignore (identity_text e1) \<noteq> utf8_ignore (identity_text e2)"
    if "encodable (identity_text e1)" "encodable (identity_text e2)"
      "identity_text e1 \<noteq> identity_text e2"
    using that utf8_ignore_inj by blast
  then show ?thesis
    by (auto simp add: entry_identity_def identity_text_def sha1_def sha1_collision_def or_empty_def)
qed

theorem entry_identity_hash_witness:
  "identity_text (feed_item (Some (u ''42'')) (u ''https://x/y'')) \<noteq>
     identity_text (feed_item None (u ''https://x/y'')) \<and>
   utf8_ignore (identity_text (feed_item (Some (u ''42'')) (u ''https://x/y''))) \<noteq>
     utf8_ignore (identity_text (feed_item None (u ''https://x/y''))) \<and>
   (sha1_collision (utf8_ignore (identity_text (feed_item (Some (u ''42'')) (u ''https://x/y''))))
      (utf8_ignore (identity_text (feed_item None (u ''https://x/y'')))) \<or>
    entry_identity (feed_item (Some (u ''42'')) (u ''https://x/y'')) \<noteq>
      entry_identity (feed_item None (u ''https://x/y'')))"
proof -
  let ?e1 = "feed_item (Some (u ''42'')) (u ''https://x/y'')"
  let ?e2 = "feed_item None (u ''https://x/y'')"
  have fields: "or_empty (e_id ?e1) \<noteq> or_empty (e_id ?e2)" "e_link ?e1 = e_link ?e2"
    "e_title ?e1 = e_title ?e2"
    by (simp_all add: feed_item_def or_empty_def u_def)
  have enc: "encodable (identity_text ?e1)" "encodable (identity_text ?e2)"
    by (simp_all add: identity_text_def feed_item_def or_empty_def encodable_def u_def)
  from entry_identity_hash [of ?e1 ?e1 ?e2] fields enc show ?thesis
    by blast
qed

text \<open>
  C5 as stated fails: the three strings are joined without a separator, so an entry with
  id \<^verbatim>\<open>https://x/\<close> and link \<^verbatim>\<open>y\<close> and an entry without id and with link
  \<^verbatim>\<open>https://x/y\<close>, both with the same title, are distinct triples with one identity.
\<close>

theorem entry_identity_concatenation_collides:
  "(e_id (feed_item (Some (u ''https://x/'')) (u ''y'')),
    e_link (feed_item (Some (u ''https://x/'')) (u ''y'')),
    e_title (feed_item (Some (u ''https://x/'')) (u ''y''))) \<noteq>
   (e_id (feed_item None (u ''https://x/y'')),
    e_link (feed_item None (u ''https://x/y'')),
    e_title (feed_item None (u ''https://x/y''))) \<and>
   entry_identity (feed_item (Some (u ''https://x/'')) (u ''y'')) =
     entry_identity (feed_item None (u ''https://x/y''))"
  by (simp add: entry_identity_def identity_text_def feed_item_def or_empty_def u_def)

section \<open>C3: the truncator\<close>

lemma bit_len_bounds: "0 < p \<Longrightarrow> 2 ^ (bit_len p - 1) \<le> p \<and> p < 2 ^ bit_len p"
proof (induction p rule: bit_len.induct)
  case (1 n)
  show ?case
  proof (cases "n div 2 = 0")
    case True
    with 1 have "n = 1" by (simp add: div_eq_0_iff) 
    then show ?thesis by (simp add: bit_len.simps)
  next
    case False
    with 1 have ih: "2 ^ (bit_len (n div 2) - 1) \<le> n div 2" "n div 2 < 2 ^ bit_len (n div 2)"
      by simp_all
    have pos: "0 < bit_len (n div 2)"
      using False by (subst bit_len.simps) simp
    have len: "bit_len n = Suc (bit_len (n div 2))"
      using 1 by (subst bit_len.simps) simp
    have "(2::nat) ^ (bit_len n - 1) = 2 * 2 ^ (bit_len (n div 2) - 1)"
      using pos by (simp add: len power_Suc [symmetric] del: power_Suc)
    also have "\<dots> \<le> 2 * (n div 2)"
      using ih(1) by simp
    also have "\<dots> \<le> n"
      by simp
    finally have lo: "2 ^ (bit_len n - 1) \<le> n" .
    have "n < 2 * (n div 2) + 2"
      by presburger
    also have "\<dots> \<le> 2 * 2 ^ bit_len (n div 2)"
      using ih(2) by simp
    finally have "n < 2 ^ bit_len n"
      by (simp add: len)
    with lo show ?thesis
      by simp
  qed
qed

lemma bit_len_le: "p < 2 ^ k \<Longrightarrow> bit_len p \<le> k"
proof (cases "p = 0")
  case True
  then show ?thesis by (simp add: bit_len.simps)
next
  case False
  assume "p < 2 ^ k"
  show ?thesis
  proof (rule ccontr)
    assume "\<not> bit_len p \<le> k"
    then have "k \<le> bit_len p - 1" by simp
    then have "(2::nat) ^ k \<le> 2 ^ (bit_len p - 1)"
      by (rule power_increasing) simp
    also have "\<dots> \<le> p"
      using bit_len_bounds [of p] False by simp
    finally show False
      using \<open>p < 2 ^ k\<close> by simp
  qed
qed

lemma round53_small: "p < 2 ^ 53 \<Longrightarrow> round53 p = p"
  using bit_len_le [of p 53] by (simp add: round53_def)

lemma round53_near:
  "round53 p \<le> p + p div 2 ^ 53 \<and> p \<le> round53 p + p div 2 ^ 53"
proof (cases "bit_len p \<le> 53")
  case True
  then show ?thesis by (simp add: round53_def)
next
  case False
  define s where "s = bit_len p - 53"
  define q where "q = p div 2 ^ s"
  define r where "r = p mod 2 ^ s"
  define h :: nat where "h = 2 ^ (s - 1)"
  have s: "0 < s" "bit_len p = s + 53"
    using False by (simp_all add: s_def)
  have p: "p = q * 2 ^ s + r"
    unfolding q_def r_def by (rule div_mult_mod_eq [symmetric])
  have r: "r < 2 * h"
  proof -
    have "r < 2 ^ s" by (simp add: r_def)
    also have "(2::nat) ^ s = 2 * h"
      using s(1) by (simp add: h_def power_Suc [symmetric] del: power_Suc)
    finally show ?thesis .
  qed
  have two_s: "(2::nat) ^ s = 2 * h"
    using s(1) by (simp add: h_def power_Suc [symmetric] del: power_Suc)
  have "0 < p"
    using False by (cases "p = 0") (simp_all add: bit_len.simps)
  then have "2 ^ (bit_len p - 1) \<le> p"
    using bit_len_bounds by blast
  moreover have "bit_len p - 1 = (s - 1) + 53"
    using s by simp
  then have "(2::nat) ^ (bit_len p - 1) = h * 2 ^ 53"
    unfolding h_def by (simp only: power_add)
  ultimately have h: "h \<le> p div 2 ^ 53"
    by (simp add: less_eq_div_iff_mult_less_eq)
  have val: "round53 p = (if h < r \<or> (r = h \<and> odd q) then q + 1 else q) * 2 ^ s"
    using False by (simp add: round53_def Let_def s_def q_def r_def h_def)
  show ?thesis
  proof (cases "h < r \<or> (r = h \<and> odd q)")
    case True
    then have "h \<le> r" by auto
    have "round53 p = q * 2 ^ s + 2 * h"
      using True by (simp add: val two_s algebra_simps)
    with p r \<open>h \<le> r\<close> h show ?thesis
      by linarith
  next
    case False
    then have "r \<le> h" by auto
    have "round53 p = q * 2 ^ s"
      using False by (simp add: val)
    with p \<open>r \<le> h\<close> h show ?thesis
      by linarith
  qed
qed



lemma product_near:
  assumes "mant < 2 ^ 53"
  shows "round53 (m * mant) \<le> m * mant + m \<and> m * mant \<le> round53 (m * mant) + m"
proof -
  have "m * mant \<le> m * 2 ^ 53"
    using assms by simp
  then have "m * mant div 2 ^ 53 \<le> m"
    by (metis div_le_mono nonzero_mult_div_cancel_right power_not_zero zero_neq_numeral)
  with round53_near [of "m * mant"] show ?thesis
    by linarith
qed

lemma head_length_bound:
  assumes "m < 2 ^ 50"
  shows "round53 (m * 6305039478318694) div 2 ^ 53 \<le> 7 * m div 10"
proof -
  define k where "k = 7 * m div 10"
  have k: "7 * m < 10 * (k + 1)"
    unfolding k_def by presburger
  have "round53 (m * 6305039478318694) \<le> m * 6305039478318694 + m"
    using product_near [of 6305039478318694 m] by simp
  also have "\<dots> < (k + 1) * 2 ^ 53"
    using k assms by simp
  finally have "round53 (m * 6305039478318694) div 2 ^ 53 < k + 1"
    by (rule less_mult_imp_div_less)
  then show ?thesis
    by (simp add: k_def)
qed

lemma tail_length_bound:
  assumes "m < 2 ^ 50"
  shows "round53 (m * 5404319552844595) div 2 ^ 54 \<le> 3 * m div 10"
proof -
  define k where "k = 3 * m div 10"
  have k: "3 * m < 10 * (k + 1)"
    unfolding k_def by presburger
  have "round53 (m * 5404319552844595) \<le> m * 5404319552844595 + m"
    using product_near [of 5404319552844595 m] by simp
  also have "\<dots> < (k + 1) * 2 ^ 54"
    using k assms by simp
  finally have "round53 (m * 5404319552844595) div 2 ^ 54 < k + 1"
    by (rule less_mult_imp_div_less)
  then show ?thesis
    by (simp add: k_def)
qed

lemma tail_length_positive:
  assumes "4 \<le> m"
  shows "1 \<le> round53 (m * 5404319552844595) div 2 ^ 54"
proof -
  have "m * 5404319552844595 \<le> round53 (m * 5404319552844595) + m"
    using product_near [of 5404319552844595 m] by simp
  with assms have "1 * 2 ^ 54 \<le> round53 (m * 5404319552844595)"
    by simp
  then show ?thesis
    by (simp add: less_eq_div_iff_mult_less_eq)
qed

lemma slice_lengths:
  assumes "4 \<le> max_chars" "max_chars < 2 ^ 50"
  shows "\<exists>hn tn. times_0_7 max_chars = Inr (int hn) \<and> times_0_3 max_chars = Inr (int tn) \<and>
           hn \<le> nat (7 * max_chars div 10) \<and> tn \<le> nat (3 * max_chars div 10) \<and>
           1 \<le> tn \<and> hn + tn \<le> nat max_chars"
proof -
  define m where "m = nat max_chars"
  have m: "4 \<le> m" "m < 2 ^ 50" "max_chars = int m"
    using assms by (simp_all add: m_def nat_less_iff nat_le_iff)
  have "m < 2 ^ 53"
    using m(2) by simp
  then have small: "round53 m = m"
    by (rule round53_small)
  have fits: "\<not> (2::nat) ^ 1024 \<le> m"
  proof -
    have "(2::nat) ^ 50 \<le> 2 ^ 1024"
      by (rule power_increasing) simp_all
    with m(2) show ?thesis
      by linarith
  qed
  have sgn: "sgn (int m) = 1"
    using m(1) by simp
  define hn where "hn = round53 (m * 6305039478318694) div 2 ^ 53"
  define tn where "tn = round53 (m * 5404319552844595) div 2 ^ 54"
  have h7: "times_0_7 max_chars = Inr (int hn)"
    unfolding times_0_7_def int_of_product_def m(3)
    by (simp only: abs_of_nat nat_int small Let_def fits if_False sgn mult_1 hn_def)
  have h3: "times_0_3 max_chars = Inr (int tn)"
    unfolding times_0_3_def int_of_product_def m(3)
    by (simp only: abs_of_nat nat_int small Let_def fits if_False sgn mult_1 tn_def)
  have b: "hn \<le> 7 * m div 10" "tn \<le> 3 * m div 10" "1 \<le> tn"
    unfolding hn_def tn_def
    using head_length_bound [OF m(2)] tail_length_bound [OF m(2)] tail_length_positive [OF m(1)]
    by blast+
  have "7 * m div 10 * 10 \<le> 7 * m" "3 * m div 10 * 10 \<le> 3 * m"
    by (rule div_times_less_eq_dividend)+
  with b have sum: "hn + tn \<le> m"
    by linarith
  have n: "nat (7 * max_chars div 10) = 7 * m div 10" "nat (3 * max_chars div 10) = 3 * m div 10"
    unfolding m(3) by (simp_all add: nat_div_distrib nat_mult_distrib)
  show ?thesis
    using h7 h3 b sum n unfolding m_def
    by (intro exI [of _ hn] exI [of _ tn]) simp
qed


lemma length_divider [simp]: "length divider = 21"
  by (simp add: divider_def)

lemma length_strip_le: "length (strip s) \<le> length s"
proof -
  have "length (strip s) \<le> length (rev (dropWhile py_isspace s))"
    unfolding strip_def length_rev [of "dropWhile py_isspace (rev (dropWhile py_isspace s))"]
    by (rule length_dropWhile_le)
  also have "\<dots> = length (dropWhile py_isspace s)"
    by simp
  also have "\<dots> \<le> length s"
    by (rule length_dropWhile_le)
  finally show ?thesis .
qed

lemma strip_replicate_a [simp]: "strip (replicate n 97) = replicate n 97"
  by (simp add: strip_def py_isspace_def)

text \<open>
  C3, as the code has it.  The truncator first trims the input; call the result the
  trimmed text.  When the input, or already the trimmed text, has at most
  \<open>max_chars\<close> characters, the result is the trimmed text.  When the trimmed text is
  longer and \<open>max_chars\<close> is at least 4 (and below \<open>2 ^ 50\<close>), the result is the first
  \<open>hn\<close> characters of the trimmed text, the divider of 21 characters (the marker between
  two pairs of newlines) and the last \<open>tn\<close> characters of the trimmed text, where
  \<open>hn\<close> and \<open>tn\<close> are \<^verbatim>\<open>int(max_chars * 0.7)\<close> and \<^verbatim>\<open>int(max_chars * 0.3)\<close> in double
  precision: at most the exact floors, \<open>tn\<close> at least 1, and 8400 and 3600 for the budget
  12000 of \<^verbatim>\<open>main\<close>.  The result has \<open>hn + 21 + tn\<close> characters, at most
  \<open>max_chars + 21\<close>, begins with the head slice and ends with the tail slice of the
  trimmed text.
\<close>

theorem truncate_shape:
  "(int (length input) \<le> max_chars \<or> int (length (strip input)) \<le> max_chars \<longrightarrow>
      truncate_for_translation input max_chars = Inr (strip input)) \<and>
   (max_chars < int (length (strip input)) \<and> 4 \<le> max_chars \<and> max_chars < 2 ^ 50 \<longrightarrow>
      (\<exists>hn tn.
         times_0_7 max_chars = Inr (int hn) \<and> times_0_3 max_chars = Inr (int tn) \<and>
         hn \<le> nat (7 * max_chars div 10) \<and> tn \<le> nat (3 * max_chars div 10) \<and> 1 \<le> tn \<and>
         truncate_for_translation input max_chars =
           Inr (take hn (strip input) @ divider @ drop (length (strip input) - tn) (strip input)) \<and>
         length (take hn (strip input) @ divider @ drop (length (strip input) - tn) (strip input)) =
           hn + 21 + tn \<and>
         hn + 21 + tn \<le> nat max_chars + 21 \<and>
         prefix (take hn (strip input))
           (take hn (strip input) @ divider @ drop (length (strip input) - tn) (strip input)) \<and>
         suffix (drop (length (strip input) - tn) (strip input))
           (take hn (strip input) @ divider @ drop (length (strip input) - tn) (strip input)))) \<and>
   times_0_7 12000 = Inr 8400 \<and> times_0_3 12000 = Inr 3600"
proof -
  have short: "truncate_for_translation input max_chars = Inr (strip input)"
    if "int (length input) \<le> max_chars \<or> int (length (strip input)) \<le> max_chars"
  proof -
    have "int (length (strip input)) \<le> max_chars"
      using that length_strip_le [of input] by linarith
    then show ?thesis
      by (simp add: truncate_for_translation_def)
  qed
  have long: "\<exists>hn tn.
         times_0_7 max_chars = Inr (int hn) \<and> times_0_3 max_chars = Inr (int tn) \<and>
         hn \<le> nat (7 * max_chars div 10) \<and> tn \<le> nat (3 * max_chars div 10) \<and> 1 \<le> tn \<and>
         truncate_for_translation input max_chars =
           Inr (take hn (strip input) @ divider @ drop (length (strip input) - tn) (strip input)) \<and>
         length (take hn (strip input) @ divider @ drop (length (strip input) - tn) (strip input)) =
           hn + 21 + tn \<and>
         hn + 21 + tn \<le> nat max_chars + 21 \<and>
         prefix (take hn (strip input))
           (take hn (strip input) @ divider @ drop (length (strip input) - tn) (strip input)) \<and>
         suffix (drop (length (strip input) - tn) (strip input))
           (take hn (strip input) @ divider @ drop (length (strip input) - tn) (strip input))"
    if over: "max_chars < int (length (strip input))" and lo: "4 \<le> max_chars"
      and hi: "max_chars < 2 ^ 50"
  proof -
    from slice_lengths [OF lo hi] obtain hn tn where
      h7: "times_0_7 max_chars = Inr (int hn)" and h3: "times_0_3 max_chars = Inr (int tn)"
      and b: "hn \<le> nat (7 * max_chars div 10)" "tn \<le> nat (3 * max_chars div 10)" "1 \<le> tn"
        "hn + tn \<le> nat max_chars"
      by blast
    have len: "hn \<le> length (strip input)" "tn \<le> length (strip input)"
      using b(4) over by linarith+
    have res: "truncate_for_translation input max_chars =
           Inr (take hn (strip input) @ divider @ drop (length (strip input) - tn) (strip input))"
      using over b(3) by (simp add: truncate_for_translation_def h7 h3 slice_to_def slice_from_def Let_def)
    have l1: "length (take hn (strip input) @ divider @ drop (length (strip input) - tn) (strip input)) =
           hn + 21 + tn"
      using len by simp
    have l2: "hn + 21 + tn \<le> nat max_chars + 21"
      using b(4) by simp
    have pre: "prefix (take hn (strip input))
           (take hn (strip input) @ divider @ drop (length (strip input) - tn) (strip input))"
      by simp
    have suf: "suffix (drop (length (strip input) - tn) (strip input))
           (take hn (strip input) @ divider @ drop (length (strip input) - tn) (strip input))"
      by (rule suffixI [of _ "take hn (strip input) @ divider"]) simp
    from h7 h3 b(1-3) res l1 l2 pre suf show ?thesis
      by blast
  qed
  show ?thesis
  proof (intro conjI impI)
    assume "int (length input) \<le> max_chars \<or> int (length (strip input)) \<le> max_chars"
    then show "truncate_for_translation input max_chars = Inr (strip input)"
      by (rule short)
  next
    assume "max_chars < int (length (strip input)) \<and> 4 \<le> max_chars \<and> max_chars < 2 ^ 50"
    then have "max_chars < int (length (strip input))" "4 \<le> max_chars" "max_chars < 2 ^ 50"
      by blast+
    then show "\<exists>hn tn.
         times_0_7 max_chars = Inr (int hn) \<and> times_0_3 max_chars = Inr (int tn) \<and>
         hn \<le> nat (7 * max_chars div 10) \<and> tn \<le> nat (3 * max_chars div 10) \<and> 1 \<le> tn \<and>
         truncate_for_translation input max_chars =
           Inr (take hn (strip input) @ divider @ drop (length (strip input) - tn) (strip input)) \<and>
         length (take hn (strip input) @ divider @ drop (length (strip input) - tn) (strip input)) =
           hn + 21 + tn \<and>
         hn + 21 + tn \<le> nat max_chars + 21 \<and>
         prefix (take hn (strip input))
           (take hn (strip input) @ divider @ drop (length (strip input) - tn) (strip input)) \<and>
         suffix (drop (length (strip input) - tn) (strip input))
           (take hn (strip input) @ divider @ drop (length (strip input) - tn) (strip input))"
      by (rule long)
  next
    show "times_0_7 12000 = Inr 8400"
      by (rule times_0_7_12000)
  next
    show "times_0_3 12000 = Inr 3600"
      by (rule times_0_3_12000)
  qed
qed


theorem truncate_shape_witness:
  "12000 < int (length (strip (replicate 12001 97))) \<and>
   truncate_for_translation (replicate 12001 97) 12000 =
     Inr (replicate 8400 97 @ divider @ replicate 3600 97) \<and>
   length (replicate 8400 (97::nat) @ divider @ replicate 3600 97) = 12021 \<and>
   truncate_for_translation (u ''hello '') 12000 = Inr (u ''hello'')"
proof -
  have over: "12000 < int (length (strip (replicate 12001 97)))"
    by simp
  note inst = truncate_shape [of "replicate 12001 97" 12000]
  from inst over obtain hn tn where
    h: "times_0_7 12000 = Inr (int hn)" "times_0_3 12000 = Inr (int tn)"
    and res: "truncate_for_translation (replicate 12001 97) 12000 =
           Inr (take hn (strip (replicate 12001 97)) @ divider @
                drop (length (strip (replicate 12001 97)) - tn) (strip (replicate 12001 97)))"
    by auto
  from h inst have "hn = 8400" "tn = 3600"
    by simp_all
  with res have long: "truncate_for_translation (replicate 12001 97) 12000 =
     Inr (replicate 8400 97 @ divider @ replicate 3600 97)"
    by simp
  have "strip (u ''hello '') = u ''hello''"
    by (simp add: strip_def u_def py_isspace_def)
  with truncate_shape [of "u ''hello ''" 12000]
  have short: "truncate_for_translation (u ''hello '') 12000 = Inr (u ''hello'')"
    by simp
  from over long short show ?thesis
    by simp
qed

text \<open>
  C3 as stated fails in three ways.  The length test and the slices are on the trimmed
  text: an input of two blanks and 12000 letters is longer than 12000 and comes back as
  its 12000 letters, without divider.  The products are in double precision: for
  \<open>max_chars = 90\<close> the head slice has 62 characters, not the floor 63.  A tail length
  of 0 takes the whole text (\<^verbatim>\<open>text[-0:]\<close>): for \<open>max_chars = 3\<close> the result is longer
  than \<open>max_chars\<close> plus the divider.
\<close>

theorem truncate_counterexamples:
  "12000 < int (length ([32, 32] @ replicate 12000 (97::nat))) \<and>
   truncate_for_translation ([32, 32] @ replicate 12000 97) 12000 = Inr (replicate 12000 97) \<and>
   90 < int (length (replicate 100 (97::nat))) \<and> 7 * 90 div 10 = (63::int) \<and>
   truncate_for_translation (replicate 100 97) 90 =
     Inr (replicate 62 97 @ divider @ replicate 27 97) \<and>
   3 < int (length (u ''abcdefghijk'')) \<and>
   truncate_for_translation (u ''abcdefghijk'') 3 = Inr (u ''ab'' @ divider @ u ''abcdefghijk'') \<and>
   3 + length divider < length (u ''ab'' @ divider @ u ''abcdefghijk'')"
proof -
  have a: "truncate_for_translation ([32, 32] @ replicate 12000 97) 12000 = Inr (replicate 12000 97)"
    by (simp add: truncate_for_translation_def strip_def py_isspace_def)
  have "times_0_7 90 = Inr 62" "times_0_3 90 = Inr 27"
    by (simp_all add: times_0_7_def times_0_3_def int_of_product_def round53_def bit_len.simps Let_def)
  then have b: "truncate_for_translation (replicate 100 97) 90 =
     Inr (replicate 62 97 @ divider @ replicate 27 97)"
    by (simp add: truncate_for_translation_def slice_to_def slice_from_def)
  have "times_0_7 3 = Inr 2" "times_0_3 3 = Inr 0"
    by (simp_all add: times_0_7_def times_0_3_def int_of_product_def round53_def bit_len.simps Let_def)
  moreover have "strip (u ''abcdefghijk'') = u ''abcdefghijk''"
    by (simp add: strip_def u_def py_isspace_def)
  ultimately have c: "truncate_for_translation (u ''abcdefghijk'') 3 =
      Inr (u ''ab'' @ divider @ u ''abcdefghijk'')"
    by (simp add: truncate_for_translation_def slice_to_def slice_from_def) (simp add: u_def)
  from a b c show ?thesis
    by simp
qed

section \<open>C9: the assembler\<close>

text \<open>
  C9.  \<^verbatim>\<open>build_rss\<close> writes the description between \<^verbatim>\<open><![CDATA[\<close> and \<^verbatim>\<open>]]>\<close>
  as it is.  For an item whose translation contains \<^verbatim>\<open>]]>\<close> the first CDATA section
  of the document ends inside the description: it holds the description up to that
  point, and the rest of the description, with its closing \<^verbatim>\<open></p>\<close>, is read as markup
  of the document.
\<close>

theorem build_rss_cdata_ends_early:
  "it_description cdata_item =
     u ''<p><b>Translated:</b></p><p>a]]>b</p><hr/><p><b>Original snippet:</b></p><p>c</p>'' \<and>
   first_cdata (build_rss (u ''Thu, 01 Jan 2026 00:00:00 +0000'') (u ''Granma'') [cdata_item]) =
     Some (u ''<p><b>Translated:</b></p><p>a'')"
  by (simp add: first_cdata_def build_rss_def item_lines_def cdata_item_def build_desc_def
      translated_block_def snippet_block_def br_def orig_snip_def replace_char_def esc_def u_def)

end
